theory Spec2Isabelle
  imports Main "HOL-Library.AList" "HOL-Library.Sublist"
begin

section \<open>Values, errors and entries\<close>

text \<open>
  The exceptions the data pack raises. A function of the source that can raise returns
  \<open>py_error + 'a\<close>, with \<open>Inl\<close> for the exception.
\<close>

datatype py_error = KeyError | ValueError | TypeError | IndexError | AttributeError

type_synonym kind = string
type_synonym tid = string

text \<open>A span \<open>[begin, end)\<close>; both offsets are Python integers.\<close>

record Span =
  span_begin :: int
  span_end :: int

text \<open>
  The three variants of an entry, and \<open>Other\<close> for an entry that is none of them (a bare
  \<open>Entry\<close>). A link names its parent and its child by identifier, a group its members.
\<close>

datatype body =
    Annotation Span
  | Link tid tid
  | Group "tid list"
  | Other

text \<open>
  An entry object: its concrete class \<open>cls\<close>, its identifier (the empty string until
  \<open>set_tid\<close> is called), the component that produced it, whether it is attached to a pack,
  its variant, and the fields a component has set on it, by name.
\<close>

record entry =
  cls :: kind
  tid :: tid
  component :: string
  attached :: bool
  body :: body
  attrs :: "(string \<times> string) list"

definition is_Annotation :: "entry \<Rightarrow> bool" where
  "is_Annotation e = (case body e of Annotation s \<Rightarrow> True | _ \<Rightarrow> False)"

definition is_Link :: "entry \<Rightarrow> bool" where
  "is_Link e = (case body e of Link p c \<Rightarrow> True | _ \<Rightarrow> False)"

definition is_Group :: "entry \<Rightarrow> bool" where
  "is_Group e = (case body e of Group ms \<Rightarrow> True | _ \<Rightarrow> False)"

text \<open>\<open>entry.span\<close>: only an annotation has the attribute.\<close>

definition span_of :: "entry \<Rightarrow> py_error + Span" where
  "span_of e = (case body e of Annotation s \<Rightarrow> Inr s | _ \<Rightarrow> Inl AttributeError)"

text \<open>An argument that is either an identifier (a \<open>str\<close>) or an entry object.\<close>

datatype entry_ref = Tid tid | Obj entry

section \<open>The pack and its indexes\<close>

text \<open>
  \<open>InternalMeta\<close>: the bookkeeping of one concrete kind. \<open>fields_created\<close> is a
  \<open>defaultdict(set)\<close> keyed by component; it is iterated, so it keeps its insertion order.
\<close>

record InternalMeta =
  id_counter :: nat
  fields_created :: "(string \<times> string set) list"
  default_component :: "string option"

definition InternalMeta_init :: InternalMeta where
  "InternalMeta_init = \<lparr>id_counter = 0, fields_created = [], default_component = None\<rparr>"

text \<open>
  \<open>DataIndex\<close>. \<open>entry_index\<close> is a dict; \<open>type_index\<close> is a \<open>defaultdict(set)\<close> that is
  iterated (\<open>get_ids_by_type\<close>), kept in insertion order with each identifier set as a
  duplicate-free list; \<open>component_index\<close> and \<open>_group_index\<close> are \<open>defaultdict(set)\<close>s
  read by key only. \<open>_link_index\<close> is a dict that has the keys \<open>"child_index"\<close> and
  \<open>"parent_index"\<close> only once it was built: an absent key is \<open>None\<close>.
\<close>

record DataIndex =
  entry_index :: "tid \<rightharpoonup> entry"
  type_index :: "(kind \<times> tid list) list"
  component_index :: "string \<Rightarrow> tid set"
  group_index_store :: "tid \<Rightarrow> tid set"
  child_index :: "(tid \<Rightarrow> tid set) option"
  parent_index :: "(tid \<Rightarrow> tid set) option"
  group_index_switch :: bool
  link_index_switch :: bool

definition DataIndex_init :: DataIndex where
  "DataIndex_init =
     \<lparr>entry_index = Map.empty, type_index = [], component_index = (\<lambda>c. {}),
      group_index_store = (\<lambda>t. {}), child_index = None, parent_index = None,
      group_index_switch = False, link_index_switch = False\<rparr>"

text \<open>
  \<open>DataPack\<close>: the text buffer, the sorted annotation container, the link and group
  lists, the index and the per-kind bookkeeping (a \<open>defaultdict(InternalMeta)\<close>, iterated
  by \<open>_parse_request_args\<close>, in insertion order).
\<close>

record DataPack =
  pack_text :: string
  annotations :: "entry list"
  links :: "entry list"
  groups :: "entry list"
  index :: DataIndex
  internal_metas :: "(kind \<times> InternalMeta) list"

definition DataPack_init :: DataPack where
  "DataPack_init =
     \<lparr>pack_text = [], annotations = [], links = [], groups = [],
      index = DataIndex_init, internal_metas = []\<rparr>"

section \<open>Span predicates\<close>

text \<open>\<open>self.entry_index[tid]\<close>: a missing key raises \<open>KeyError\<close>.\<close>

definition index_entry :: "DataIndex \<Rightarrow> tid \<Rightarrow> py_error + entry" where
  "index_entry ix t = (case entry_index ix t of None \<Rightarrow> Inl KeyError | Some e \<Rightarrow> Inr e)"

text \<open>
  Modelled from the spec: \<open>Link.get_child\<close>, \<open>Link.get_parent\<close> and \<open>Group.get_members\<close>
  belong to the ontology module, which is not among the sources. The spec has a link and a
  group hold their referents by identifier; the accessors resolve them in the pack the
  entry is attached to.
\<close>

fun get_members :: "DataIndex \<Rightarrow> tid list \<Rightarrow> py_error + entry list" where
  "get_members ix [] = Inr []"
| "get_members ix (m # ms) =
     (case index_entry ix m of
        Inl err \<Rightarrow> Inl err
      | Inr e \<Rightarrow> (case get_members ix ms of Inl err \<Rightarrow> Inl err | Inr es \<Rightarrow> Inr (e # es)))"

text \<open>The loop of \<open>in_span\<close> over the members of a group.\<close>

fun group_span :: "entry list \<Rightarrow> int \<Rightarrow> int \<Rightarrow> py_error + int \<times> int" where
  "group_span [] inner_begin inner_end = Inr (inner_begin, inner_end)"
| "group_span (mem # mems) inner_begin inner_end =
     (case span_of mem of
        Inl err \<Rightarrow> Inl err
      | Inr s \<Rightarrow>
          (let b0 = (if inner_begin = - 1 then span_begin s else inner_begin)
           in group_span mems (min b0 (span_begin s)) (max inner_end (span_end s))))"

definition in_span :: "DataIndex \<Rightarrow> entry_ref \<Rightarrow> Span \<Rightarrow> py_error + bool" where
  "in_span ix inner_entry span =
     (case (case inner_entry of Tid t \<Rightarrow> index_entry ix t | Obj e \<Rightarrow> Inr e) of
        Inl err \<Rightarrow> Inl err
      | Inr e \<Rightarrow>
          (case (case body e of
                   Annotation s \<Rightarrow> Inr (span_begin s, span_end s)
                 | Link parent child \<Rightarrow>
                     (case index_entry ix child of
                        Inl err \<Rightarrow> Inl err
                      | Inr c \<Rightarrow>
                          (case index_entry ix parent of
                             Inl err \<Rightarrow> Inl err
                           | Inr p \<Rightarrow>
                               (case span_of c of
                                  Inl err \<Rightarrow> Inl err
                                | Inr cs \<Rightarrow>
                                    (case span_of p of
                                       Inl err \<Rightarrow> Inl err
                                     | Inr ps \<Rightarrow>
                                         Inr (min (span_begin cs) (span_begin ps),
                                              max (span_end cs) (span_end ps))))))
                 | Group members \<Rightarrow>
                     (case get_members ix members of
                        Inl err \<Rightarrow> Inl err
                      | Inr mems \<Rightarrow> group_span mems (- 1) (- 1))
                 | Other \<Rightarrow> Inl ValueError) of
             Inl err \<Rightarrow> Inl err
           | Inr (inner_begin, inner_end) \<Rightarrow>
               Inr (inner_begin \<ge> span_begin span \<and> inner_end \<le> span_end span)))"

text \<open>
  \<open>have_overlap\<close>: each operand is resolved when it is an identifier, and must be an
  annotation.
\<close>

definition overlap_operand :: "DataIndex \<Rightarrow> entry_ref \<Rightarrow> py_error + Span" where
  "overlap_operand ix r =
     (case r of
        Tid t \<Rightarrow>
          (case index_entry ix t of
             Inl err \<Rightarrow> Inl err
           | Inr e \<Rightarrow> (case body e of Annotation s \<Rightarrow> Inr s | _ \<Rightarrow> Inl TypeError))
      | Obj e \<Rightarrow> (case body e of Annotation s \<Rightarrow> Inr s | _ \<Rightarrow> Inl TypeError))"

definition have_overlap :: "DataIndex \<Rightarrow> entry_ref \<Rightarrow> entry_ref \<Rightarrow> py_error + bool" where
  "have_overlap ix entry1 entry2 =
     (case overlap_operand ix entry1 of
        Inl err \<Rightarrow> Inl err
      | Inr s1 \<Rightarrow>
          (case overlap_operand ix entry2 of
             Inl err \<Rightarrow> Inl err
           | Inr s2 \<Rightarrow>
               Inr (\<not> (span_begin s1 \<ge> span_end s2 \<or> span_end s1 \<le> span_begin s2))))"

section \<open>The text buffer\<close>

text \<open>
  \<open>set_text\<close> returns the records it sends to the logger and the updated pack.
\<close>

datatype log_record = Warning string

definition set_text :: "DataPack \<Rightarrow> string \<Rightarrow> py_error + log_record list \<times> DataPack" where
  "set_text p new_text =
     Inr ((if \<not> prefix (pack_text p) new_text
           then [Warning ''The new text is overwriting the original one, which might cause unexpected behavior.'']
           else []),
          p\<lparr>pack_text := new_text\<rparr>)"

section \<open>Inserting entries\<close>

text \<open>
  The ontology module (the entry classes) is not among the sources. Its class hierarchy
  (\<open>issubclass\<close> on kinds, a kind being named by its class name), the entries' \<open>__eq__\<close>,
  which the source's docstring lets a user override, and the static \<open>parent_type\<close> and
  \<open>child_type\<close> of a link class are parameters of the model.
\<close>

record ontology =
  issubclass :: "kind \<Rightarrow> kind \<Rightarrow> bool"
  entry_eq :: "entry \<Rightarrow> entry \<Rightarrow> bool"
  parent_type :: "kind \<Rightarrow> kind"
  child_type :: "kind \<Rightarrow> kind"

text \<open>Python's \<open>str\<close> of a non-negative integer: its decimal digits.\<close>

definition digit_char :: "nat \<Rightarrow> char" where
  "digit_char d = char_of (48 + d)"

fun str_nat :: "nat \<Rightarrow> string" where
  "str_nat n = (if n < 10 then [digit_char n] else str_nat (n div 10) @ [digit_char (n mod 10)])"

declare str_nat.simps [simp del]

text \<open>
  Modelled from the spec: \<open>Entry.set_tid\<close> and \<open>Entry.attach\<close> are methods of the ontology
  module. By the spec the identifier is the string minted from the per-kind counter, so that
  two entries of different kinds may receive the same identifier string; \<open>attach\<close> sets the
  back-reference to the pack.
\<close>

definition set_tid :: "entry \<Rightarrow> string \<Rightarrow> entry" where
  "set_tid e s = e\<lparr>tid := s\<rparr>"

definition attach :: "entry \<Rightarrow> entry" where
  "attach e = e\<lparr>attached := True\<rparr>"

text \<open>
  Modelled from the spec: the order of annotations (\<open>Annotation.__lt__\<close>, ontology module)
  is by \<open>span.begin\<close>, ties broken by \<open>span.end\<close>. Only annotations are compared; the key of
  another entry is never read.
\<close>

definition span_key :: "entry \<Rightarrow> int \<times> int" where
  "span_key e = (case body e of Annotation s \<Rightarrow> (span_begin s, span_end s) | _ \<Rightarrow> (0, 0))"

definition key_lt :: "int \<times> int \<Rightarrow> int \<times> int \<Rightarrow> bool" where
  "key_lt k1 k2 = (fst k1 < fst k2 \<or> (fst k1 = fst k2 \<and> snd k1 < snd k2))"

definition entry_lt :: "entry \<Rightarrow> entry \<Rightarrow> bool" where
  "entry_lt a b = key_lt (span_key a) (span_key b)"

text \<open>
  \<open>SortedList\<close> (the sortedcontainers library), as the list of its elements in order.
  \<open>add\<close> inserts the value behind the elements that are not greater (the position
  \<open>bisect_right\<close> finds). \<open>__contains__\<close> and \<open>index\<close> go to the first element that is not
  less than the value (the position \<open>bisect_left\<close> finds) and compare that one element with
  \<open>==\<close>. \<open>bisect\<close> is \<open>bisect_right\<close>.
\<close>

fun sl_add :: "entry \<Rightarrow> entry list \<Rightarrow> entry list" where
  "sl_add v [] = [v]"
| "sl_add v (a # as) = (if entry_lt v a then v # a # as else a # sl_add v as)"

definition sl_find :: "ontology \<Rightarrow> entry \<Rightarrow> entry list \<Rightarrow> entry option" where
  "sl_find ont v xs =
     (case dropWhile (\<lambda>a. entry_lt a v) xs of
        [] \<Rightarrow> None
      | a # _ \<Rightarrow> (if entry_eq ont a v then Some a else None))"

definition sl_bisect :: "int \<times> int \<Rightarrow> entry list \<Rightarrow> nat" where
  "sl_bisect k xs = length (takeWhile (\<lambda>a. \<not> key_lt k (span_key a)) xs)"

text \<open>
  A Python list: \<open>in\<close> and \<open>index\<close> compare the elements with \<open>==\<close> from the front;
  \<open>target[target.index(entry)]\<close> is the first equal element.
\<close>

definition list_find :: "ontology \<Rightarrow> entry \<Rightarrow> entry list \<Rightarrow> entry option" where
  "list_find ont v xs = find (\<lambda>a. entry_eq ont a v) xs"

text \<open>Reading \<open>internal_metas[name]\<close>, a \<open>defaultdict\<close>, and writing it back.\<close>

definition meta_of :: "(kind \<times> InternalMeta) list \<Rightarrow> kind \<Rightarrow> InternalMeta" where
  "meta_of metas name = (case map_of metas name of None \<Rightarrow> InternalMeta_init | Some m \<Rightarrow> m)"

definition type_index_add :: "(kind \<times> tid list) list \<Rightarrow> kind \<Rightarrow> tid \<Rightarrow> (kind \<times> tid list) list" where
  "type_index_add ti k t =
     (let ts = (case map_of ti k of None \<Rightarrow> [] | Some ts \<Rightarrow> ts)
      in AList.update k (if t \<in> set ts then ts else ts @ [t]) ti)"

fun update_basic_index :: "DataIndex \<Rightarrow> entry list \<Rightarrow> DataIndex" where
  "update_basic_index ix [] = ix"
| "update_basic_index ix (e # es) =
     update_basic_index
       (ix\<lparr>entry_index := (entry_index ix)(tid e \<mapsto> e),
           type_index := type_index_add (type_index ix) (cls e) (tid e),
           component_index :=
             (component_index ix)(component e := insert (tid e) (component_index ix (component e)))\<rparr>)
       es"

text \<open>
  The loop of \<open>update_link_index\<close>. Reading \<open>_link_index["child_index"]\<close> raises
  \<open>KeyError\<close> when the key is absent; \<open>link.child\<close> exists on a link only.
\<close>

fun link_index_loop :: "DataIndex \<Rightarrow> entry list \<Rightarrow> py_error + DataIndex" where
  "link_index_loop ix [] = Inr ix"
| "link_index_loop ix (link # rest) =
     (case body link of
        Link parent child \<Rightarrow>
          (case child_index ix of
             None \<Rightarrow> Inl KeyError
           | Some ci \<Rightarrow>
               (case parent_index ix of
                  None \<Rightarrow> Inl KeyError
                | Some pi \<Rightarrow>
                    link_index_loop
                      (ix\<lparr>child_index := Some (ci(child := insert (tid link) (ci child))),
                          parent_index := Some (pi(parent := insert (tid link) (pi parent)))\<rparr>)
                      rest))
      | _ \<Rightarrow> Inl AttributeError)"

text \<open>
  \<open>DataIndex.update_link_index\<close>; the index reads the links of the pack it belongs to,
  so the function takes the pack and returns it with the new index.
\<close>

definition update_link_index :: "DataPack \<Rightarrow> entry list \<Rightarrow> py_error + DataPack" where
  "update_link_index p lks =
     (case (if \<not> link_index_switch (index p)
            then link_index_loop
                   ((index p)\<lparr>link_index_switch := True,
                              child_index := Some (\<lambda>t. {}),
                              parent_index := Some (\<lambda>t. {})\<rparr>)
                   (links p)
            else link_index_loop (index p) lks) of
        Inl err \<Rightarrow> Inl err
      | Inr ix \<Rightarrow> Inr (p\<lparr>index := ix\<rparr>))"

fun group_members_loop :: "(tid \<Rightarrow> tid set) \<Rightarrow> tid \<Rightarrow> tid list \<Rightarrow> tid \<Rightarrow> tid set" where
  "group_members_loop gi g [] = gi"
| "group_members_loop gi g (member # rest) =
     group_members_loop (gi(member := insert g (gi member))) g rest"

fun group_index_loop :: "DataIndex \<Rightarrow> entry list \<Rightarrow> py_error + DataIndex" where
  "group_index_loop ix [] = Inr ix"
| "group_index_loop ix (grp # rest) =
     (case body grp of
        Group members \<Rightarrow>
          group_index_loop
            (ix\<lparr>group_index_store := group_members_loop (group_index_store ix) (tid grp) members\<rparr>)
            rest
      | _ \<Rightarrow> Inl AttributeError)"

definition update_group_index :: "DataPack \<Rightarrow> entry list \<Rightarrow> py_error + DataPack" where
  "update_group_index p grps =
     (case (if \<not> group_index_switch (index p)
            then group_index_loop
                   ((index p)\<lparr>group_index_switch := True, group_index_store := (\<lambda>t. {})\<rparr>)
                   (groups p)
            else group_index_loop (index p) grps) of
        Inl err \<Rightarrow> Inl err
      | Inr ix \<Rightarrow> Inr (p\<lparr>index := ix\<rparr>))"

text \<open>
  \<open>DataIndex.link_index\<close> and \<open>DataIndex.group_index\<close>: the lookup builds the index when
  its switch is off, so it returns the pack as well.
\<close>

definition link_index :: "DataPack \<Rightarrow> tid \<Rightarrow> bool \<Rightarrow> py_error + tid set \<times> DataPack" where
  "link_index p t as_parent =
     (case (if \<not> link_index_switch (index p) then update_link_index p (links p) else Inr p) of
        Inl err \<Rightarrow> Inl err
      | Inr p' \<Rightarrow>
          (case (if as_parent then parent_index (index p') else child_index (index p')) of
             None \<Rightarrow> Inl KeyError
           | Some li \<Rightarrow> Inr (li t, p')))"

definition group_index :: "DataPack \<Rightarrow> tid \<Rightarrow> py_error + tid set \<times> DataPack" where
  "group_index p t =
     (case (if \<not> group_index_switch (index p) then update_group_index p (groups p) else Inr p) of
        Inl err \<Rightarrow> Inl err
      | Inr p' \<Rightarrow> Inr (group_index_store (index p') t, p'))"

text \<open>
  The block that \<open>add_entry\<close> and \<open>add_or_get_entry\<close> both run to store an entry: mint the
  identifier from the counter of the entry's class, attach, put the entry into its
  container, count, and update the indexes.
\<close>

definition store_entry :: "DataPack \<Rightarrow> entry \<Rightarrow> py_error + entry \<times> DataPack" where
  "store_entry p entry0 =
     (let name = cls entry0;
          m = meta_of (internal_metas p) name;
          entry = attach (set_tid entry0 (str_nat (id_counter m)));
          p1 = (case body entry of
                  Annotation s \<Rightarrow> p\<lparr>annotations := sl_add entry (annotations p)\<rparr>
                | Link parent child \<Rightarrow> p\<lparr>links := links p @ [entry]\<rparr>
                | _ \<Rightarrow> p\<lparr>groups := groups p @ [entry]\<rparr>);
          p2 = p1\<lparr>internal_metas :=
                    AList.update name (m\<lparr>id_counter := id_counter m + 1\<rparr>) (internal_metas p1)\<rparr>;
          p3 = p2\<lparr>index := update_basic_index (index p2) [entry]\<rparr>
      in case (if link_index_switch (index p3) \<and> is_Link entry
               then update_link_index p3 [entry] else Inr p3) of
           Inl err \<Rightarrow> Inl err
         | Inr p4 \<Rightarrow>
             (case (if group_index_switch (index p4) \<and> is_Group entry
                    then update_group_index p4 [entry] else Inr p4) of
                Inl err \<Rightarrow> Inl err
              | Inr p5 \<Rightarrow> Inr (entry, p5)))"

definition add_entry :: "DataPack \<Rightarrow> entry \<Rightarrow> py_error + entry \<times> DataPack" where
  "add_entry p entry =
     (case body entry of
        Other \<Rightarrow> Inl ValueError
      | _ \<Rightarrow> store_entry p entry)"

definition add_or_get_entry :: "ontology \<Rightarrow> DataPack \<Rightarrow> entry \<Rightarrow> py_error + entry \<times> DataPack" where
  "add_or_get_entry ont p entry =
     (case body entry of
        Other \<Rightarrow> Inl ValueError
      | _ \<Rightarrow>
          (case (case body entry of
                   Annotation s \<Rightarrow> sl_find ont entry (annotations p)
                 | Link parent child \<Rightarrow> list_find ont entry (links p)
                 | _ \<Rightarrow> list_find ont entry (groups p)) of
             None \<Rightarrow> store_entry p entry
           | Some found \<Rightarrow> Inr (found, p)))"

definition get_entry_by_id :: "DataPack \<Rightarrow> tid \<Rightarrow> py_error + entry" where
  "get_entry_by_id p t =
     (case entry_index (index p) t of None \<Rightarrow> Inl KeyError | Some e \<Rightarrow> Inr e)"

text \<open>
  A sequence of calls on a pack: inserts and lookups in the relation indexes (a lookup
  changes the pack when it builds the index). The sequence stops at the first call that
  raises.
\<close>

datatype pack_op =
    AddEntry entry
  | AddOrGetEntry entry
  | LookupLinks tid bool
  | LookupGroups tid

definition apply_op :: "ontology \<Rightarrow> DataPack \<Rightarrow> pack_op \<Rightarrow> py_error + DataPack" where
  "apply_op ont p opn =
     (case opn of
        AddEntry e \<Rightarrow> (case add_entry p e of Inl err \<Rightarrow> Inl err | Inr r \<Rightarrow> Inr (snd r))
      | AddOrGetEntry e \<Rightarrow>
          (case add_or_get_entry ont p e of Inl err \<Rightarrow> Inl err | Inr r \<Rightarrow> Inr (snd r))
      | LookupLinks t as_parent \<Rightarrow>
          (case link_index p t as_parent of Inl err \<Rightarrow> Inl err | Inr r \<Rightarrow> Inr (snd r))
      | LookupGroups t \<Rightarrow>
          (case group_index p t of Inl err \<Rightarrow> Inl err | Inr r \<Rightarrow> Inr (snd r)))"

fun run_ops :: "ontology \<Rightarrow> DataPack \<Rightarrow> pack_op list \<Rightarrow> py_error + DataPack" where
  "run_ops ont p [] = Inr p"
| "run_ops ont p (opn # rest) =
     (case apply_op ont p opn of
        Inl err \<Rightarrow> Inl err
      | Inr p' \<Rightarrow> run_ops ont p' rest)"

section \<open>What the pack holds\<close>

text \<open>
  The identifiers of the links that have \<open>t\<close> as their child, and as their parent: what
  the link index holds for \<open>t\<close> once it is built.
\<close>

definition child_ids :: "entry list \<Rightarrow> tid \<Rightarrow> tid set" where
  "child_ids ls t =
     set (map tid (filter (\<lambda>l. case body l of Link parent child \<Rightarrow> child = t | _ \<Rightarrow> False) ls))"

definition parent_ids :: "entry list \<Rightarrow> tid \<Rightarrow> tid set" where
  "parent_ids ls t =
     set (map tid (filter (\<lambda>l. case body l of Link parent child \<Rightarrow> parent = t | _ \<Rightarrow> False) ls))"

text \<open>Non-decreasing span order: by \<open>begin\<close>, ties by \<open>end\<close>.\<close>

definition key_le :: "int \<times> int \<Rightarrow> int \<times> int \<Rightarrow> bool" where
  "key_le k1 k2 = (fst k1 < fst k2 \<or> (fst k1 = fst k2 \<and> snd k1 \<le> snd k2))"

definition span_sorted :: "entry list \<Rightarrow> bool" where
  "span_sorted xs = sorted_wrt (\<lambda>a b. key_le (span_key a) (span_key b)) xs"

text \<open>
  The invariant of a pack that inserts and lookups maintain: each container holds entries
  of its variant, the annotations are in span order, and the link index, once its switch is
  on, holds the links of the link container.
\<close>

definition pack_inv :: "DataPack \<Rightarrow> bool" where
  "pack_inv p =
     (list_all is_Annotation (annotations p) \<and> span_sorted (annotations p)
      \<and> list_all is_Link (links p) \<and> list_all is_Group (groups p)
      \<and> (link_index_switch (index p) \<longrightarrow>
            child_index (index p) = Some (child_ids (links p))
          \<and> parent_index (index p) = Some (parent_ids (links p))))"

text \<open>The entry as \<open>store_entry\<close> stores it: with its identifier minted, attached.\<close>

definition minted :: "DataPack \<Rightarrow> entry \<Rightarrow> entry" where
  "minted p e = attach (set_tid e (str_nat (id_counter (meta_of (internal_metas p) (cls e)))))"


text \<open>The pack with its link index built from its link container.\<close>

definition with_links_built :: "DataPack \<Rightarrow> DataPack" where
  "with_links_built p =
     p\<lparr>index := (index p)\<lparr>link_index_switch := True,
                           child_index := Some (child_ids (links p)),
                           parent_index := Some (parent_ids (links p))\<rparr>\<rparr>"


section \<open>Examples\<close>

text \<open>A newly constructed entry: no identifier yet, not attached, no field set.\<close>

definition new_entry :: "kind \<Rightarrow> string \<Rightarrow> body \<Rightarrow> entry" where
  "new_entry k c b = \<lparr>cls = k, tid = [], component = c, attached = False, body = b, attrs = []\<rparr>"

definition new_annotation :: "kind \<Rightarrow> string \<Rightarrow> int \<Rightarrow> int \<Rightarrow> entry" where
  "new_annotation k c b e = new_entry k c (Annotation \<lparr>span_begin = b, span_end = e\<rparr>)"

text \<open>
  A small ontology: sentences and tokens are annotations, a dependency is a link, a
  coreference cluster is a group; two entries are equal when they have the same variant
  and content.
\<close>

definition example_ontology :: ontology where
  "example_ontology =
     \<lparr>issubclass = (\<lambda>k1 k2. k1 = k2 \<or> k2 = ''Entry''
          \<or> (k1, k2) \<in> set [(''Sentence'', ''Annotation''), (''Token'', ''Annotation''),
                             (''Dependency'', ''Link''), (''Cluster'', ''Group'')]),
      entry_eq = (\<lambda>a b. body a = body b),
      parent_type = (\<lambda>k. ''Token''),
      child_type = (\<lambda>k. ''Token'')\<rparr>"

section \<open>Recording provenance and normalizing a request\<close>

text \<open>
  \<open>record_fields\<close>: the component becomes the default component of the kind when the kind
  has none; \<open>"tid"\<close> is appended to the caller's list, which the function returns here with
  the pack; every field is added to the set the component has for the kind.
\<close>

fun add_fields_created ::
  "(string \<times> string set) list \<Rightarrow> string \<Rightarrow> string list \<Rightarrow> (string \<times> string set) list" where
  "add_fields_created fc c [] = fc"
| "add_fields_created fc c (field # rest) =
     add_fields_created
       (AList.update c (insert field (case map_of fc c of None \<Rightarrow> {} | Some s \<Rightarrow> s)) fc) c rest"

definition record_fields ::
  "DataPack \<Rightarrow> string list \<Rightarrow> kind \<Rightarrow> string \<Rightarrow> string list \<times> DataPack" where
  "record_fields p flds entry_type c =
     (let m = meta_of (internal_metas p) entry_type;
          m1 = (if map_of (internal_metas p) entry_type = None \<or> default_component m = None
                then m\<lparr>default_component := Some c\<rparr> else m);
          fields1 = flds @ [''tid''];
          m2 = m1\<lparr>fields_created := add_fields_created (fields_created m1) c fields1\<rparr>
      in (fields1, p\<lparr>internal_metas := AList.update entry_type m2 (internal_metas p)\<rparr>))"

text \<open>
  The value of a request. A value of a dict is \<open>Unset\<close> when the key is absent or holds
  \<open>None\<close>, \<open>Given\<close> when it has the documented type (a list of names for \<open>"component"\<close> and
  \<open>"fields"\<close>, a string for \<open>"unit"\<close>), and \<open>IllTyped\<close> when it has a type the function
  rejects. \<open>ArgOther\<close> is a request that is neither \<open>None\<close>, a dict nor an iterable. A
  string given where a list of names is documented is not modelled.
\<close>

datatype 'a arg = Unset | Given 'a | IllTyped

datatype request_args =
    ArgNone
  | ArgFields "string list"
  | ArgDict "string list arg" "string arg" "string list arg"
  | ArgOther

definition arg_value :: "'a arg \<Rightarrow> 'a option" where
  "arg_value a = (case a of Given v \<Rightarrow> Some v | _ \<Rightarrow> None)"

text \<open>A Python set of names as a duplicate-free list; \<open>set_add\<close> is \<open>set.add\<close>.\<close>

definition set_add :: "string \<Rightarrow> string list \<Rightarrow> string list" where
  "set_add x xs = (if x \<in> set xs then xs else xs @ [x])"

text \<open>The two loops of \<open>_parse_request_args\<close> that check the existence of the fields.\<close>

fun check_fields_created ::
  "string list option \<Rightarrow> string list \<Rightarrow> (string \<times> string set) list \<Rightarrow> py_error + unit" where
  "check_fields_created components flds [] = Inr ()"
| "check_fields_created components flds ((meta_c, meta_f) # rest) =
     (if (case components of None \<Rightarrow> True | Some cs \<Rightarrow> meta_c \<in> set cs)
         \<and> \<not> set flds \<subseteq> meta_f
      then Inl KeyError
      else check_fields_created components flds rest)"

fun check_metas ::
  "ontology \<Rightarrow> kind \<Rightarrow> string list option \<Rightarrow> string list \<Rightarrow> (kind \<times> InternalMeta) list
     \<Rightarrow> py_error + unit" where
  "check_metas ont a_type components flds [] = Inr ()"
| "check_metas ont a_type components flds ((meta_key, meta_val) # rest) =
     (if issubclass ont meta_key a_type
      then (case check_fields_created components flds (fields_created meta_val) of
              Inl err \<Rightarrow> Inl err
            | Inr u \<Rightarrow> check_metas ont a_type components flds rest)
      else check_metas ont a_type components flds rest)"

definition checked_request ::
  "ontology \<Rightarrow> DataPack \<Rightarrow> kind \<Rightarrow> string list option \<Rightarrow> string option \<Rightarrow> string list
     \<Rightarrow> py_error + string list option \<times> string option \<times> string list" where
  "checked_request ont p a_type components unit flds =
     (case check_metas ont a_type components flds (internal_metas p) of
        Inl err \<Rightarrow> Inl err
      | Inr u \<Rightarrow> Inr (components, unit, set_add ''tid'' flds))"

definition parse_request_args ::
  "ontology \<Rightarrow> DataPack \<Rightarrow> kind \<Rightarrow> request_args
     \<Rightarrow> py_error + string list option \<times> string option \<times> string list" where
  "parse_request_args ont p a_type a_args =
     (case a_args of
        ArgNone \<Rightarrow> checked_request ont p a_type None None []
      | ArgFields fs \<Rightarrow> checked_request ont p a_type None None (remdups fs)
      | ArgDict components unit flds \<Rightarrow>
          (if components = IllTyped then Inl TypeError
           else if unit = IllTyped then Inl TypeError
           else (case flds of
                   IllTyped \<Rightarrow> Inl TypeError
                 | Unset \<Rightarrow>
                     checked_request ont p a_type (arg_value components) (arg_value unit) []
                 | Given fs \<Rightarrow>
                     checked_request ont p a_type (arg_value components) (arg_value unit)
                       (remdups fs)))
      | ArgOther \<Rightarrow> Inl TypeError)"

text \<open>
  What a request of the documented types asks for: its component filter and its fields.
\<close>

definition well_typed :: "request_args \<Rightarrow> bool" where
  "well_typed a_args =
     (case a_args of
        ArgDict components unit flds \<Rightarrow>
          components \<noteq> IllTyped \<and> unit \<noteq> IllTyped \<and> flds \<noteq> IllTyped
      | ArgOther \<Rightarrow> False
      | _ \<Rightarrow> True)"

definition requested_components :: "request_args \<Rightarrow> string list option" where
  "requested_components a_args =
     (case a_args of ArgDict components unit flds \<Rightarrow> arg_value components | _ \<Rightarrow> None)"

definition requested_unit :: "request_args \<Rightarrow> string option" where
  "requested_unit a_args =
     (case a_args of ArgDict components unit flds \<Rightarrow> arg_value unit | _ \<Rightarrow> None)"

definition requested_fields :: "request_args \<Rightarrow> string list" where
  "requested_fields a_args =
     (case a_args of
        ArgFields fs \<Rightarrow> remdups fs
      | ArgDict components unit flds \<Rightarrow> (case flds of Given fs \<Rightarrow> remdups fs | _ \<Rightarrow> [])
      | _ \<Rightarrow> [])"

text \<open>
  The condition under which the check of \<open>_parse_request_args\<close> passes: every component
  that has a record for a registered kind below the requested kind, and that the filter
  admits, has recorded all the requested fields.
\<close>

definition all_recorded ::
  "ontology \<Rightarrow> DataPack \<Rightarrow> kind \<Rightarrow> string list option \<Rightarrow> string list \<Rightarrow> bool" where
  "all_recorded ont p a_type components flds =
     (\<forall>(meta_key, meta_val) \<in> set (internal_metas p).
        issubclass ont meta_key a_type \<longrightarrow>
          (\<forall>(meta_c, meta_f) \<in> set (fields_created meta_val).
             (case components of None \<Rightarrow> True | Some cs \<Rightarrow> meta_c \<in> set cs) \<longrightarrow>
               set flds \<subseteq> meta_f))"

text \<open>
  The condition as the claim words it: every requested field was recorded by at least one
  component that the filter admits, for a registered kind below the requested kind.
\<close>

definition each_recorded_by_some ::
  "ontology \<Rightarrow> DataPack \<Rightarrow> kind \<Rightarrow> string list option \<Rightarrow> string list \<Rightarrow> bool" where
  "each_recorded_by_some ont p a_type components flds =
     (\<forall>field \<in> set flds.
        \<exists>(meta_key, meta_val) \<in> set (internal_metas p).
          issubclass ont meta_key a_type
          \<and> (\<exists>(meta_c, meta_f) \<in> set (fields_created meta_val).
                (case components of None \<Rightarrow> True | Some cs \<Rightarrow> meta_c \<in> set cs)
                \<and> field \<in> meta_f))"

text \<open>
  Two packs for the examples: in the first a tagger has recorded \<open>pos_tag\<close> for tokens, in
  the second a recognizer has recorded \<open>ner\<close> for tokens as well.
\<close>

definition pack_tagged :: DataPack where
  "pack_tagged = snd (record_fields DataPack_init [''pos_tag''] ''Token'' ''tagger'')"

definition pack_tagged_recognized :: DataPack where
  "pack_tagged_recognized = snd (record_fields pack_tagged [''ner''] ''Token'' ''recognizer'')"

section \<open>Reading entries\<close>

text \<open>Python's slice \<open>xs[b:e]\<close>: a negative index counts from the end, and both are clamped.\<close>

definition py_slice :: "'a list \<Rightarrow> int \<Rightarrow> int \<Rightarrow> 'a list" where
  "py_slice xs b e =
     (let n = int (length xs);
          lo = (if b < 0 then max 0 (n + b) else min n b);
          hi = (if e < 0 then max 0 (n + e) else min n e)
      in take (nat (hi - lo)) (drop (nat lo) xs))"

text \<open>
  \<open>get_ids_by_type\<close> unites the identifier sets of the registered kinds below \<open>tp\<close>. The
  result is a Python set; the model lists it without duplicates, in the order of the scan,
  and that is the order in which \<open>get_entries\<close> enumerates it.
\<close>

fun ids_by_type_loop :: "ontology \<Rightarrow> kind \<Rightarrow> (kind \<times> tid list) list \<Rightarrow> tid list \<Rightarrow> tid list" where
  "ids_by_type_loop ont tp [] subclass_index = subclass_index"
| "ids_by_type_loop ont tp ((index_key, index_val) # rest) subclass_index =
     ids_by_type_loop ont tp rest
       (if issubclass ont index_key tp
        then subclass_index @ filter (\<lambda>t. t \<notin> set subclass_index) index_val
        else subclass_index)"

definition get_ids_by_type :: "ontology \<Rightarrow> DataPack \<Rightarrow> kind \<Rightarrow> tid list" where
  "get_ids_by_type ont p tp = ids_by_type_loop ont tp (type_index (index p)) []"

definition get_ids_by_compoent :: "DataPack \<Rightarrow> string \<Rightarrow> tid set" where
  "get_ids_by_compoent p c = component_index (index p) c"

text \<open>The \<open>components\<close> argument of \<open>get_entries\<close>: \<open>None\<close>, one name, or a list of names.\<close>

datatype components_arg = NoComponents | OneComponent string | ComponentList "string list"

definition component_names :: "components_arg \<Rightarrow> string list option" where
  "component_names components =
     (case components of
        NoComponents \<Rightarrow> None
      | OneComponent c \<Rightarrow> Some [c]
      | ComponentList cs \<Rightarrow> Some cs)"

definition valid_ids :: "ontology \<Rightarrow> DataPack \<Rightarrow> kind \<Rightarrow> components_arg \<Rightarrow> tid list" where
  "valid_ids ont p entry_type components =
     (let valid_id = get_ids_by_type ont p entry_type
      in case component_names components of
           None \<Rightarrow> valid_id
         | Some cs \<Rightarrow> filter (\<lambda>t. \<exists>c \<in> set cs. t \<in> get_ids_by_compoent p c) valid_id)"

text \<open>
  A generator is modelled by what it yields, in order, and the exception that ends the
  iteration, if one does. Its body runs when the consumer advances it, so an exception
  raised before the first \<open>yield\<close> reaches the consumer at the first step.
\<close>

type_synonym 'a generated = "'a list \<times> py_error option"

definition yield :: "'a \<Rightarrow> 'a generated \<Rightarrow> 'a generated" where
  "yield x rest = (x # fst rest, snd rest)"

definition raise :: "py_error \<Rightarrow> 'a generated" where
  "raise err = ([], Some err)"

fun annotations_loop ::
  "DataIndex \<Rightarrow> tid list \<Rightarrow> Span option \<Rightarrow> entry list \<Rightarrow> entry generated" where
  "annotations_loop ix valid_id range_span [] = ([], None)"
| "annotations_loop ix valid_id range_span (annotation # rest) =
     (if tid annotation \<notin> set valid_id then annotations_loop ix valid_id range_span rest
      else (case (case range_span of
                    None \<Rightarrow> Inr True
                  | Some sp \<Rightarrow> in_span ix (Obj annotation) sp) of
              Inl err \<Rightarrow> raise err
            | Inr inside \<Rightarrow>
                (if inside then yield annotation (annotations_loop ix valid_id range_span rest)
                 else annotations_loop ix valid_id range_span rest)))"

fun entry_ids_loop :: "DataPack \<Rightarrow> Span option \<Rightarrow> tid list \<Rightarrow> entry generated" where
  "entry_ids_loop p range_span [] = ([], None)"
| "entry_ids_loop p range_span (entry_id # rest) =
     (case get_entry_by_id p entry_id of
        Inl err \<Rightarrow> raise err
      | Inr e \<Rightarrow>
          (case (case range_span of
                   None \<Rightarrow> Inr True
                 | Some sp \<Rightarrow> in_span (index p) (Obj e) sp) of
             Inl err \<Rightarrow> raise err
           | Inr inside \<Rightarrow>
               (if inside then yield e (entry_ids_loop p range_span rest)
                else entry_ids_loop p range_span rest)))"

text \<open>
  The range of \<open>get_entries\<close>: the span of \<open>range_annotation\<close>, or from \<open>0\<close> to the end of
  the last annotation, \<open>self.annotations[-1].span.end\<close>, which raises \<open>IndexError\<close> on an
  empty container.
\<close>

definition entries_range :: "DataPack \<Rightarrow> entry option \<Rightarrow> py_error + int \<times> int \<times> Span option" where
  "entries_range p range_annotation =
     (case range_annotation of
        Some r \<Rightarrow>
          (case span_of r of
             Inl err \<Rightarrow> Inl err
           | Inr s \<Rightarrow> Inr (span_begin s, span_end s, Some s))
      | None \<Rightarrow>
          (if annotations p = [] then Inl IndexError
           else (case span_of (last (annotations p)) of
                   Inl err \<Rightarrow> Inl err
                 | Inr s \<Rightarrow> Inr (0, span_end s, None))))"

definition get_entries ::
  "ontology \<Rightarrow> DataPack \<Rightarrow> kind \<Rightarrow> entry option \<Rightarrow> components_arg \<Rightarrow> entry generated" where
  "get_entries ont p entry_type range_annotation components =
     (case entries_range p range_annotation of
        Inl err \<Rightarrow> raise err
      | Inr (range_begin, range_end, range_span) \<Rightarrow>
          (let valid_id = valid_ids ont p entry_type components
           in if issubclass ont entry_type ''Annotation''
              then (let begin_index = sl_bisect (range_begin, - 1) (annotations p);
                        end_index = sl_bisect (range_end, - 1) (annotations p)
                    in annotations_loop (index p) valid_id range_span
                         (py_slice (annotations p) (int begin_index) (int end_index)))
              else if issubclass ont entry_type ''Link'' \<or> issubclass ont entry_type ''Group''
              then entry_ids_loop p range_span valid_id
              else ([], None)))"

definition get ::
  "ontology \<Rightarrow> DataPack \<Rightarrow> kind \<Rightarrow> entry option \<Rightarrow> components_arg \<Rightarrow> entry generated" where
  "get ont p entry_type range_annotation c = get_entries ont p entry_type range_annotation c"

section \<open>Extracting data\<close>

text \<open>
  The values of a record that \<open>get_data\<close> yields: strings, integers, pairs of integers
  (spans and index ranges) and lists of names. A record maps a key to a value or to a
  sub-record, which maps a key to an array, one element per entry.
\<close>

datatype pyval = PStr string | PInt int | PPair int int | PStrs "string list"

type_synonym sub_record = "(string \<times> pyval list) list"

datatype dval = DValue pyval | DRecord sub_record

type_synonym data_record = "(string \<times> dval) list"

text \<open>
  Modelled from the spec: the attributes of an entry object (ontology module) that
  \<open>getattr\<close> reads: identifier and component; the span and the text of an annotation, the text
  being the substring of the pack's text that the span covers; parent and child of a link;
  the members of a group; and the fields set by a component. Any other name raises
  \<open>AttributeError\<close>.
\<close>

definition getattr :: "DataPack \<Rightarrow> entry \<Rightarrow> string \<Rightarrow> py_error + pyval" where
  "getattr p e name =
     (if name = ''tid'' then Inr (PStr (tid e))
      else if name = ''component'' then Inr (PStr (component e))
      else (case body e of
              Annotation s \<Rightarrow>
                (if name = ''span'' then Inr (PPair (span_begin s) (span_end s))
                 else if name = ''text''
                 then Inr (PStr (py_slice (pack_text p) (span_begin s) (span_end s)))
                 else (case map_of (attrs e) name of
                         None \<Rightarrow> Inl AttributeError | Some v \<Rightarrow> Inr (PStr v)))
            | Link parent child \<Rightarrow>
                (if name = ''parent'' then Inr (PStr parent)
                 else if name = ''child'' then Inr (PStr child)
                 else (case map_of (attrs e) name of
                         None \<Rightarrow> Inl AttributeError | Some v \<Rightarrow> Inr (PStr v)))
            | Group members \<Rightarrow>
                (if name = ''members'' then Inr (PStrs members)
                 else (case map_of (attrs e) name of
                         None \<Rightarrow> Inl AttributeError | Some v \<Rightarrow> Inr (PStr v)))
            | Other \<Rightarrow>
                (case map_of (attrs e) name of
                   None \<Rightarrow> Inl AttributeError | Some v \<Rightarrow> Inr (PStr v))))"

text \<open>\<open>a_dict[key].append(v)\<close>; every key that is appended to was set to \<open>[]\<close> before.\<close>

definition dict_append :: "sub_record \<Rightarrow> string \<Rightarrow> pyval \<Rightarrow> sub_record" where
  "dict_append a_dict k v =
     AList.update k ((case map_of a_dict k of None \<Rightarrow> [] | Some vs \<Rightarrow> vs) @ [v]) a_dict"

fun init_fields :: "string list \<Rightarrow> sub_record \<Rightarrow> sub_record" where
  "init_fields [] a_dict = a_dict"
| "init_fields (field # rest) a_dict = init_fields rest (AList.update field [] a_dict)"

text \<open>
  \<open>data[unit]["tid"]\<close>: the identifier array of a sub-record that an earlier request of the
  same call produced. A value that is not a sub-record cannot be indexed by a string.
\<close>

definition tid_array :: "data_record \<Rightarrow> string \<Rightarrow> py_error + pyval list" where
  "tid_array data k =
     (case map_of data k of
        None \<Rightarrow> Inl KeyError
      | Some (DValue v) \<Rightarrow> Inl TypeError
      | Some (DRecord r) \<Rightarrow> (case map_of r ''tid'' of None \<Rightarrow> Inl KeyError | Some ts \<Rightarrow> Inr ts))"

definition unit_in_span :: "DataIndex \<Rightarrow> pyval \<Rightarrow> Span \<Rightarrow> py_error + bool" where
  "unit_in_span ix u sp = (case u of PStr t \<Rightarrow> in_span ix (Tid t) sp | _ \<Rightarrow> Inl ValueError)"

text \<open>
  The two \<open>while\<close> loops that find the units inside an annotation, each on the part of the
  identifier array from its cursor on: the first counts the units it skips until one is in
  the span, the second the units in the span from the one after. Both raise \<open>IndexError\<close>
  when they run past the end of the array.
\<close>

fun skip_outside :: "DataIndex \<Rightarrow> Span \<Rightarrow> pyval list \<Rightarrow> py_error + nat" where
  "skip_outside ix sp [] = Inl IndexError"
| "skip_outside ix sp (u # us) =
     (case unit_in_span ix u sp of
        Inl err \<Rightarrow> Inl err
      | Inr inside \<Rightarrow>
          (if inside then Inr 0
           else (case skip_outside ix sp us of Inl err \<Rightarrow> Inl err | Inr n \<Rightarrow> Inr (Suc n))))"

fun run_inside :: "DataIndex \<Rightarrow> Span \<Rightarrow> pyval list \<Rightarrow> py_error + nat" where
  "run_inside ix sp [] = Inl IndexError"
| "run_inside ix sp (u # us) =
     (case unit_in_span ix u sp of
        Inl err \<Rightarrow> Inl err
      | Inr inside \<Rightarrow>
          (if inside
           then (case run_inside ix sp us of Inl err \<Rightarrow> Inl err | Inr n \<Rightarrow> Inr (Suc n))
           else Inr 0))"

fun annotation_fields_loop ::
  "DataPack \<Rightarrow> entry \<Rightarrow> Span \<Rightarrow> int \<Rightarrow> string list \<Rightarrow> sub_record \<Rightarrow> py_error + sub_record" where
  "annotation_fields_loop p annotation s sent_begin [] a_dict = Inr a_dict"
| "annotation_fields_loop p annotation s sent_begin (field # rest) a_dict =
     (if field = ''span'' \<or> field = ''text''
      then annotation_fields_loop p annotation s sent_begin rest a_dict
      else if field = ''context_span''
      then annotation_fields_loop p annotation s sent_begin rest
             (dict_append a_dict field
                (PPair (span_begin s - sent_begin) (span_end s - sent_begin)))
      else (case getattr p annotation field of
              Inl err \<Rightarrow> Inl err
            | Inr v \<Rightarrow>
                annotation_fields_loop p annotation s sent_begin rest (dict_append a_dict field v)))"

fun annotation_rows ::
  "DataPack \<Rightarrow> string list \<Rightarrow> string option \<Rightarrow> data_record \<Rightarrow> int \<Rightarrow> entry list \<Rightarrow> nat
     \<Rightarrow> sub_record \<Rightarrow> py_error + sub_record" where
  "annotation_rows p flds unit data sent_begin [] unit_begin a_dict = Inr a_dict"
| "annotation_rows p flds unit data sent_begin (annotation # rest) unit_begin a_dict =
     (case span_of annotation of
        Inl err \<Rightarrow> Inl err
      | Inr s \<Rightarrow>
          (case annotation_fields_loop p annotation s sent_begin flds
                  (dict_append
                     (dict_append a_dict ''span'' (PPair (span_begin s) (span_end s)))
                     ''text'' (PStr (py_slice (pack_text p) (span_begin s) (span_end s)))) of
             Inl err \<Rightarrow> Inl err
           | Inr a_dict1 \<Rightarrow>
               (case unit of
                  None \<Rightarrow> annotation_rows p flds unit data sent_begin rest unit_begin a_dict1
                | Some u \<Rightarrow>
                    (case tid_array data u of
                       Inl err \<Rightarrow> Inl err
                     | Inr tids \<Rightarrow>
                         (case skip_outside (index p) s (drop unit_begin tids) of
                            Inl err \<Rightarrow> Inl err
                          | Inr n \<Rightarrow>
                              (case run_inside (index p) s (drop (unit_begin + n + 1) tids) of
                                 Inl err \<Rightarrow> Inl err
                               | Inr k \<Rightarrow>
                                   annotation_rows p flds unit data sent_begin rest
                                     (unit_begin + n)
                                     (dict_append a_dict1 ''unit_span''
                                        (PPair (int (unit_begin + n))
                                               (int (unit_begin + n + 1 + k))))))))))"

definition filter_components :: "string list option \<Rightarrow> components_arg" where
  "filter_components components =
     (case components of None \<Rightarrow> NoComponents | Some cs \<Rightarrow> ComponentList cs)"

text \<open>
  \<open>_generate_annotation_entry_data\<close>. The rows are built from what \<open>get_entries\<close> yields;
  an exception that ends its iteration is raised after the rows before it were built.
\<close>

definition generate_annotation_entry_data ::
  "ontology \<Rightarrow> DataPack \<Rightarrow> kind \<Rightarrow> request_args \<Rightarrow> data_record \<Rightarrow> entry option
     \<Rightarrow> py_error + sub_record" where
  "generate_annotation_entry_data ont p a_type a_args data sent =
     (case parse_request_args ont p a_type a_args of
        Inl err \<Rightarrow> Inl err
      | Inr (components, unit, flds) \<Rightarrow>
          (if unit \<noteq> None \<and> map_of data (the unit) = None then Inl KeyError
           else (case (case sent of None \<Rightarrow> Inr 0
                       | Some s \<Rightarrow> (case span_of s of Inl err \<Rightarrow> Inl err
                                    | Inr sp \<Rightarrow> Inr (span_begin sp))) of
                   Inl err \<Rightarrow> Inl err
                 | Inr sent_begin \<Rightarrow>
                     (let a_dict0 = init_fields flds [(''span'', []), (''text'', [])];
                          a_dict = (if unit \<noteq> None then AList.update ''unit_span'' [] a_dict0
                                    else a_dict0);
                          found = get_entries ont p a_type sent (filter_components components)
                      in case annotation_rows p flds unit data sent_begin (fst found) 0 a_dict of
                           Inl err \<Rightarrow> Inl err
                         | Inr rows \<Rightarrow>
                             (case snd found of None \<Rightarrow> Inr rows | Some err \<Rightarrow> Inl err)))))"

text \<open>
  \<open>np.where(array == x)[0][0]\<close>: the position of the first element equal to \<open>x\<close>;
  \<open>IndexError\<close> when there is none.
\<close>

fun first_position :: "pyval list \<Rightarrow> pyval \<Rightarrow> py_error + nat" where
  "first_position [] x = Inl IndexError"
| "first_position (y # ys) x =
     (if y = x then Inr 0
      else (case first_position ys x of Inl err \<Rightarrow> Inl err | Inr n \<Rightarrow> Inr (Suc n)))"

fun link_fields_loop ::
  "DataPack \<Rightarrow> entry \<Rightarrow> string list \<Rightarrow> sub_record \<Rightarrow> py_error + sub_record" where
  "link_fields_loop p link [] a_dict = Inr a_dict"
| "link_fields_loop p link (field # rest) a_dict =
     (if field = ''parent'' \<or> field = ''child'' then link_fields_loop p link rest a_dict
      else (case getattr p link field of
              Inl err \<Rightarrow> Inl err
            | Inr v \<Rightarrow> link_fields_loop p link rest (dict_append a_dict field v)))"

fun link_rows ::
  "ontology \<Rightarrow> DataPack \<Rightarrow> string list \<Rightarrow> data_record \<Rightarrow> entry list \<Rightarrow> sub_record
     \<Rightarrow> py_error + sub_record" where
  "link_rows ont p flds data [] a_dict = Inr a_dict"
| "link_rows ont p flds data (link # rest) a_dict =
     (case body link of
        Link parent child \<Rightarrow>
          (if map_of data (parent_type ont (cls link)) = None then Inl KeyError
           else if map_of data (child_type ont (cls link)) = None then Inl KeyError
           else (case tid_array data (parent_type ont (cls link)) of
                   Inl err \<Rightarrow> Inl err
                 | Inr parent_tids \<Rightarrow>
                     (case first_position parent_tids (PStr parent) of
                        Inl err \<Rightarrow> Inl err
                      | Inr parent_pos \<Rightarrow>
                          (case tid_array data (child_type ont (cls link)) of
                             Inl err \<Rightarrow> Inl err
                           | Inr child_tids \<Rightarrow>
                               (case first_position child_tids (PStr child) of
                                  Inl err \<Rightarrow> Inl err
                                | Inr child_pos \<Rightarrow>
                                    (case link_fields_loop p link flds
                                            (dict_append
                                               (dict_append a_dict ''parent''
                                                  (PInt (int parent_pos)))
                                               ''child'' (PInt (int child_pos))) of
                                       Inl err \<Rightarrow> Inl err
                                     | Inr a_dict1 \<Rightarrow>
                                         link_rows ont p flds data rest a_dict1))))))
      | _ \<Rightarrow> Inl AttributeError)"

definition generate_link_entry_data ::
  "ontology \<Rightarrow> DataPack \<Rightarrow> kind \<Rightarrow> request_args \<Rightarrow> data_record \<Rightarrow> entry option
     \<Rightarrow> py_error + sub_record" where
  "generate_link_entry_data ont p a_type a_args data sent =
     (case parse_request_args ont p a_type a_args of
        Inl err \<Rightarrow> Inl err
      | Inr (components, unit, flds) \<Rightarrow>
          (if unit \<noteq> None then Inl ValueError
           else (let a_dict =
                       AList.update ''child'' []
                         (AList.update ''parent'' [] (init_fields flds []));
                     found = get ont p a_type sent (filter_components components)
                 in case link_rows ont p flds data (fst found) a_dict of
                      Inl err \<Rightarrow> Inl err
                    | Inr rows \<Rightarrow>
                        (case snd found of None \<Rightarrow> Inr rows | Some err \<Rightarrow> Inl err))))"

text \<open>
  The requests of a call, sorted into annotation, link and group kinds; a kind that is none
  of them is dropped.
\<close>

definition annotation_types :: "ontology \<Rightarrow> (kind \<times> request_args) list \<Rightarrow> (kind \<times> request_args) list" where
  "annotation_types ont requests =
     filter (\<lambda>(key, value). issubclass ont key ''Annotation'') requests"

definition link_types :: "ontology \<Rightarrow> (kind \<times> request_args) list \<Rightarrow> (kind \<times> request_args) list" where
  "link_types ont requests =
     filter (\<lambda>(key, value). \<not> issubclass ont key ''Annotation'' \<and> issubclass ont key ''Link'')
       requests"

definition group_types :: "ontology \<Rightarrow> (kind \<times> request_args) list \<Rightarrow> (kind \<times> request_args) list" where
  "group_types ont requests =
     filter (\<lambda>(key, value). \<not> issubclass ont key ''Annotation'' \<and> \<not> issubclass ont key ''Link''
                             \<and> issubclass ont key ''Group'')
       requests"

text \<open>
  The sub-records of one context: one for each requested annotation kind, then one for
  each requested link kind. In sentence context (\<open>sent\<close> is the sentence) the sentence-like
  kinds are skipped.
\<close>

fun annotation_sub_records ::
  "ontology \<Rightarrow> DataPack \<Rightarrow> entry option \<Rightarrow> (kind \<times> request_args) list \<Rightarrow> data_record
     \<Rightarrow> py_error + data_record" where
  "annotation_sub_records ont p sent [] data = Inr data"
| "annotation_sub_records ont p sent ((a_type, a_args) # rest) data =
     (if sent \<noteq> None \<and> issubclass ont a_type ''Sentence''
      then annotation_sub_records ont p sent rest data
      else if map_of data a_type \<noteq> None then Inl KeyError
      else (case generate_annotation_entry_data ont p a_type a_args data sent of
              Inl err \<Rightarrow> Inl err
            | Inr r \<Rightarrow>
                annotation_sub_records ont p sent rest (AList.update a_type (DRecord r) data)))"

fun link_sub_records ::
  "ontology \<Rightarrow> DataPack \<Rightarrow> entry option \<Rightarrow> (kind \<times> request_args) list \<Rightarrow> data_record
     \<Rightarrow> py_error + data_record" where
  "link_sub_records ont p sent [] data = Inr data"
| "link_sub_records ont p sent ((l_type, l_args) # rest) data =
     (if map_of data l_type \<noteq> None then Inl KeyError
      else (case generate_link_entry_data ont p l_type l_args data sent of
              Inl err \<Rightarrow> Inl err
            | Inr r \<Rightarrow>
                link_sub_records ont p sent rest (AList.update l_type (DRecord r) data)))"

definition sub_records ::
  "ontology \<Rightarrow> DataPack \<Rightarrow> entry option \<Rightarrow> (kind \<times> request_args) list \<Rightarrow> data_record
     \<Rightarrow> py_error + data_record" where
  "sub_records ont p sent requests data =
     (case annotation_sub_records ont p sent (annotation_types ont requests) data of
        Inl err \<Rightarrow> Inl err
      | Inr data1 \<Rightarrow> link_sub_records ont p sent (link_types ont requests) data1)"

text \<open>The sentence request of a call: at most one requested kind may be sentence-like.\<close>

fun find_sentence_request ::
  "ontology \<Rightarrow> (kind \<times> request_args) list \<Rightarrow> bool \<Rightarrow> kind \<Rightarrow> request_args
     \<Rightarrow> py_error + kind \<times> request_args" where
  "find_sentence_request ont [] has_sentence_args sent_type sent_args = Inr (sent_type, sent_args)"
| "find_sentence_request ont ((a_type, a_args) # rest) has_sentence_args sent_type sent_args =
     (if issubclass ont a_type ''Sentence''
      then (if has_sentence_args then Inl KeyError
            else find_sentence_request ont rest True a_type a_args)
      else find_sentence_request ont rest has_sentence_args sent_type sent_args)"

definition valid_sentence_ids :: "ontology \<Rightarrow> DataPack \<Rightarrow> string list option \<Rightarrow> tid list" where
  "valid_sentence_ids ont p sent_components =
     (let valid_sent_ids = get_ids_by_type ont p ''Sentence''
      in case sent_components of
           None \<Rightarrow> valid_sent_ids
         | Some cs \<Rightarrow>
             (if cs = [] then valid_sent_ids
              else filter (\<lambda>t. \<exists>c \<in> set cs. t \<in> get_ids_by_compoent p c) valid_sent_ids))"

fun sentence_fields_loop ::
  "DataPack \<Rightarrow> entry \<Rightarrow> string list \<Rightarrow> data_record \<Rightarrow> py_error + data_record" where
  "sentence_fields_loop p sent [] data = Inr data"
| "sentence_fields_loop p sent (field # rest) data =
     (case getattr p sent field of
        Inl err \<Rightarrow> Inl err
      | Inr v \<Rightarrow> sentence_fields_loop p sent rest (AList.update field (DValue v) data))"

text \<open>The record of one sentence.\<close>

definition sentence_record ::
  "ontology \<Rightarrow> DataPack \<Rightarrow> (kind \<times> request_args) list \<Rightarrow> string list \<Rightarrow> entry
     \<Rightarrow> py_error + data_record" where
  "sentence_record ont p requests sent_fields sent =
     (case span_of sent of
        Inl err \<Rightarrow> Inl err
      | Inr s \<Rightarrow>
          (case sentence_fields_loop p sent sent_fields
                  [(''context'', DValue (PStr (py_slice (pack_text p) (span_begin s) (span_end s)))),
                   (''offset'', DValue (PInt (span_begin s)))] of
             Inl err \<Rightarrow> Inl err
           | Inr data \<Rightarrow> sub_records ont p (Some sent) requests data))"

fun sentence_loop ::
  "ontology \<Rightarrow> DataPack \<Rightarrow> (kind \<times> request_args) list \<Rightarrow> kind \<Rightarrow> string list \<Rightarrow> tid list
     \<Rightarrow> int \<Rightarrow> entry list \<Rightarrow> int \<Rightarrow> data_record generated" where
  "sentence_loop ont p requests sent_type sent_fields valid_sent_ids offset [] skipped = ([], None)"
| "sentence_loop ont p requests sent_type sent_fields valid_sent_ids offset (sent # rest) skipped =
     (if tid sent \<notin> set valid_sent_ids \<or> \<not> issubclass ont (cls sent) sent_type
      then sentence_loop ont p requests sent_type sent_fields valid_sent_ids offset rest skipped
      else if skipped < offset
      then sentence_loop ont p requests sent_type sent_fields valid_sent_ids offset rest
             (skipped + 1)
      else (case sentence_record ont p requests sent_fields sent of
              Inl err \<Rightarrow> raise err
            | Inr data \<Rightarrow>
                yield data
                  (sentence_loop ont p requests sent_type sent_fields valid_sent_ids offset rest
                     skipped)))"

text \<open>\<open>str.lower\<close> on the ASCII letters.\<close>

definition lower_char :: "char \<Rightarrow> char" where
  "lower_char c =
     (let n = (of_char c :: nat) in if 65 \<le> n \<and> n \<le> 90 then char_of (n + 32) else c)"

definition lower :: "string \<Rightarrow> string" where
  "lower s = map lower_char s"

text \<open>
  \<open>get_data\<close>. \<open>requests\<close> is the dict of the call in its order, with distinct keys;
  \<open>None\<close> is the empty list. Group kinds are accepted and produce nothing.
\<close>

definition get_data ::
  "ontology \<Rightarrow> DataPack \<Rightarrow> string \<Rightarrow> (kind \<times> request_args) list \<Rightarrow> int
     \<Rightarrow> data_record generated" where
  "get_data ont p context_type requests offset =
     (if lower context_type = ''document''
      then (case sub_records ont p None requests
                   [(''context'', DValue (PStr (pack_text p))), (''offset'', DValue (PInt 0))] of
              Inl err \<Rightarrow> raise err
            | Inr data \<Rightarrow> yield data ([], None))
      else if lower context_type = ''sentence''
      then (case find_sentence_request ont (annotation_types ont requests) False
                   ''Sentence'' ArgNone of
              Inl err \<Rightarrow> raise err
            | Inr (sent_type, sent_args) \<Rightarrow>
                (case parse_request_args ont p sent_type sent_args of
                   Inl err \<Rightarrow> raise err
                 | Inr (sent_components, sent_unit, sent_fields) \<Rightarrow>
                     sentence_loop ont p requests sent_type sent_fields
                       (valid_sentence_ids ont p sent_components) offset (annotations p) 0))
      else ([], None))"

section \<open>Span predicates: the claims\<close>

text \<open>
  C5. For two annotation operands, \<open>have_overlap\<close> returns true exactly when
  \<open>not (a.end <= b.begin or a.begin >= b.end)\<close>. Touching spans \<open>[0,5)\<close> and \<open>[5,10)\<close>
  do not overlap, \<open>[0,5)\<close> and \<open>[4,10)\<close> do, and \<open>[0,5)\<close> overlaps itself.
\<close>

theorem have_overlap_annotations:
  "have_overlap ix (Obj (a\<lparr>body := Annotation sa\<rparr>)) (Obj (b\<lparr>body := Annotation sb\<rparr>)) =
     Inr (\<not> (span_end sa \<le> span_begin sb \<or> span_begin sa \<ge> span_end sb))
   \<and> have_overlap ix (Obj (a\<lparr>body := Annotation \<lparr>span_begin = 0, span_end = 5\<rparr>\<rparr>))
        (Obj (b\<lparr>body := Annotation \<lparr>span_begin = 5, span_end = 10\<rparr>\<rparr>)) = Inr False
   \<and> have_overlap ix (Obj (a\<lparr>body := Annotation \<lparr>span_begin = 0, span_end = 5\<rparr>\<rparr>))
        (Obj (b\<lparr>body := Annotation \<lparr>span_begin = 4, span_end = 10\<rparr>\<rparr>)) = Inr True
   \<and> have_overlap ix (Obj (a\<lparr>body := Annotation \<lparr>span_begin = 0, span_end = 5\<rparr>\<rparr>))
        (Obj (a\<lparr>body := Annotation \<lparr>span_begin = 0, span_end = 5\<rparr>\<rparr>)) = Inr True"
  by (auto simp: have_overlap_def overlap_operand_def)

text \<open>
  C6. For an annotation entry, \<open>in_span\<close> returns true exactly when
  \<open>entry.span.begin >= span.begin and entry.span.end <= span.end\<close>, inclusive at both
  ends: an annotation with span \<open>[2,8)\<close> is in the span \<open>[0,10)\<close> and not in \<open>[0,5)\<close>.
\<close>

theorem in_span_annotation:
  "in_span ix (Obj (a\<lparr>body := Annotation sa\<rparr>)) span =
     Inr (span_begin sa \<ge> span_begin span \<and> span_end sa \<le> span_end span)
   \<and> in_span ix (Obj (a\<lparr>body := Annotation \<lparr>span_begin = 2, span_end = 8\<rparr>\<rparr>))
        \<lparr>span_begin = 0, span_end = 10\<rparr> = Inr True
   \<and> in_span ix (Obj (a\<lparr>body := Annotation \<lparr>span_begin = 2, span_end = 8\<rparr>\<rparr>))
        \<lparr>span_begin = 0, span_end = 5\<rparr> = Inr False
   \<and> in_span ix (Obj (a\<lparr>body := Annotation sa\<rparr>)) sa = Inr True"
  by (simp add: in_span_def)

section \<open>The text buffer: the claim\<close>

text \<open>
  C9. For every buffer and every new text, \<open>set_text\<close> does not raise: it returns
  normally, it logs a warning exactly when the new text does not have the old text as a
  prefix, and the buffer afterwards is the new text; nothing else of the pack changes.
\<close>

theorem set_text_overwrites:
  "\<exists>logged p'. set_text p new_text = Inr (logged, p')
     \<and> pack_text p' = new_text
     \<and> p' = p\<lparr>pack_text := new_text\<rparr>
     \<and> (logged = [] \<longleftrightarrow> prefix (pack_text p) new_text)
     \<and> length logged \<le> 1"
  by (simp add: set_text_def)

section \<open>Inserts keep the invariant\<close>

lemma set_sl_add [simp]: "set (sl_add v xs) = insert v (set xs)"
  by (induction xs) auto

lemma length_sl_add [simp]: "length (sl_add v xs) = Suc (length xs)"
  by (induction xs) auto


lemma key_le_trans: "key_le a b \<Longrightarrow> key_le b c \<Longrightarrow> key_le a c"
  by (auto simp: key_le_def)

lemma not_key_lt: "\<not> key_lt a b \<longleftrightarrow> key_le b a"
  by (auto simp: key_lt_def key_le_def)

lemma key_lt_le: "key_lt a b \<Longrightarrow> key_le a b"
  by (auto simp: key_lt_def key_le_def)

lemma span_sorted_sl_add: "span_sorted xs \<Longrightarrow> span_sorted (sl_add v xs)"
proof (induction xs)
  case Nil
  then show ?case by (simp add: span_sorted_def)
next
  case (Cons a xs)
  show ?case
  proof (cases "entry_lt v a")
    case True
    then have va: "key_le (span_key v) (span_key a)"
      by (simp add: entry_lt_def key_lt_le)
    with Cons.prems show ?thesis
      using True by (auto simp: span_sorted_def intro: key_le_trans)
  next
    case False
    then have av: "key_le (span_key a) (span_key v)"
      by (simp add: entry_lt_def not_key_lt)
    from Cons.prems have "span_sorted xs" by (simp add: span_sorted_def)
    then have "span_sorted (sl_add v xs)" by (rule Cons.IH)
    with Cons.prems av False show ?thesis
      by (auto simp: span_sorted_def)
  qed
qed

lemma group_index_loop_frame:
  "list_all is_Group gs \<Longrightarrow>
   \<exists>gi. group_index_loop ix gs = Inr (ix\<lparr>group_index_store := gi\<rparr>)"
proof (induction gs arbitrary: ix)
  case Nil
  have "ix = ix\<lparr>group_index_store := group_index_store ix\<rparr>" by simp
  then show ?case by (metis group_index_loop.simps(1))
next
  case (Cons g gs)
  from Cons.prems obtain ms where g: "body g = Group ms"
    by (auto simp: is_Group_def split: body.splits)
  from Cons.prems have "list_all is_Group gs" by simp
  from Cons.IH[OF this, of "ix\<lparr>group_index_store := group_members_loop (group_index_store ix) (tid g) ms\<rparr>"]
  obtain gi where "group_index_loop (ix\<lparr>group_index_store := group_members_loop (group_index_store ix) (tid g) ms\<rparr>) gs
      = Inr (ix\<lparr>group_index_store := group_members_loop (group_index_store ix) (tid g) ms\<rparr>\<lparr>group_index_store := gi\<rparr>)"
    by blast
  then show ?case using g by (intro exI[of _ gi]) simp
qed

lemma update_basic_index_single:
  "update_basic_index ix [e] =
     ix\<lparr>entry_index := (entry_index ix)(tid e \<mapsto> e),
        type_index := type_index_add (type_index ix) (cls e) (tid e),
        component_index :=
          (component_index ix)(component e := insert (tid e) (component_index ix (component e)))\<rparr>"
  by simp

lemma child_ids_snoc:
  "body l = Link parent child \<Longrightarrow>
   (child_ids ls)(child := insert (tid l) (child_ids ls child)) = child_ids (ls @ [l])"
  by (auto simp: fun_eq_iff child_ids_def)

lemma parent_ids_snoc:
  "body l = Link parent child \<Longrightarrow>
   (parent_ids ls)(parent := insert (tid l) (parent_ids ls parent)) = parent_ids (ls @ [l])"
  by (auto simp: fun_eq_iff parent_ids_def)

lemma store_entry_annotation:
  assumes "body e = Annotation s"
  shows "store_entry p e =
     Inr (minted p e,
          p\<lparr>annotations := sl_add (minted p e) (annotations p),
            internal_metas :=
              AList.update (cls e)
                ((meta_of (internal_metas p) (cls e))
                   \<lparr>id_counter := id_counter (meta_of (internal_metas p) (cls e)) + 1\<rparr>)
                (internal_metas p),
            index := update_basic_index (index p) [minted p e]\<rparr>)"
  using assms
  by (simp add: store_entry_def minted_def Let_def is_Link_def is_Group_def attach_def set_tid_def)


lemma body_minted [simp]: "body (minted p e) = body e"
  by (simp add: minted_def attach_def set_tid_def)

lemma cls_minted [simp]: "cls (minted p e) = cls e"
  by (simp add: minted_def attach_def set_tid_def)


lemma is_minted [simp]:
  "is_Annotation (minted p e) = is_Annotation e"
  "is_Link (minted p e) = is_Link e"
  "is_Group (minted p e) = is_Group e"
  by (simp_all add: is_Annotation_def is_Link_def is_Group_def)

lemma store_entry_link_off:
  assumes "body e = Link parent child" "\<not> link_index_switch (index p)"
  shows "store_entry p e =
     Inr (minted p e,
          p\<lparr>links := links p @ [minted p e],
            internal_metas :=
              AList.update (cls e)
                ((meta_of (internal_metas p) (cls e))
                   \<lparr>id_counter := id_counter (meta_of (internal_metas p) (cls e)) + 1\<rparr>)
                (internal_metas p),
            index := update_basic_index (index p) [minted p e]\<rparr>)"
  using assms
  by (simp add: store_entry_def minted_def Let_def is_Link_def is_Group_def attach_def set_tid_def)

lemma store_entry_link_on:
  assumes "body e = Link parent child" "link_index_switch (index p)"
    "child_index (index p) = Some ci" "parent_index (index p) = Some pi"
  shows "store_entry p e =
     Inr (minted p e,
          p\<lparr>links := links p @ [minted p e],
            internal_metas :=
              AList.update (cls e)
                ((meta_of (internal_metas p) (cls e))
                   \<lparr>id_counter := id_counter (meta_of (internal_metas p) (cls e)) + 1\<rparr>)
                (internal_metas p),
            index := (update_basic_index (index p) [minted p e])
               \<lparr>child_index := Some (ci(child := insert (tid (minted p e)) (ci child))),
                parent_index := Some (pi(parent := insert (tid (minted p e)) (pi parent)))\<rparr>\<rparr>)"
  using assms
  by (simp add: store_entry_def minted_def Let_def is_Link_def is_Group_def attach_def set_tid_def
      update_link_index_def)

lemma store_entry_group:
  assumes "body e = Group ms"
  shows "store_entry p e =
     Inr (minted p e,
          p\<lparr>groups := groups p @ [minted p e],
            internal_metas :=
              AList.update (cls e)
                ((meta_of (internal_metas p) (cls e))
                   \<lparr>id_counter := id_counter (meta_of (internal_metas p) (cls e)) + 1\<rparr>)
                (internal_metas p),
            index :=
              (if group_index_switch (index p)
               then (update_basic_index (index p) [minted p e])
                      \<lparr>group_index_store :=
                         group_members_loop (group_index_store (index p)) (tid (minted p e)) ms\<rparr>
               else update_basic_index (index p) [minted p e])\<rparr>)"
  using assms
  by (simp add: store_entry_def minted_def Let_def is_Link_def is_Group_def attach_def set_tid_def
      update_group_index_def)

lemma store_entry_inv:
  assumes inv: "pack_inv p" and e: "body e \<noteq> Other"
  shows "\<exists>p'. store_entry p e = Inr (minted p e, p') \<and> pack_inv p'"
proof (cases "body e")
  case (Annotation s)
  show ?thesis
    using inv Annotation
    by (simp add: store_entry_annotation[OF Annotation] pack_inv_def span_sorted_sl_add
        list_all_iff is_Annotation_def)
next
  case (Link parent child)
  show ?thesis
  proof (cases "link_index_switch (index p)")
    case False
    then show ?thesis using inv Link
      by (simp add: store_entry_link_off[OF Link False] pack_inv_def is_Link_def)
  next
    case True
    with inv have ci: "child_index (index p) = Some (child_ids (links p))"
      and pi: "parent_index (index p) = Some (parent_ids (links p))"
      by (simp_all add: pack_inv_def)
    have b: "body (minted p e) = Link parent child" using Link by simp
    show ?thesis using inv True
      by (simp add: store_entry_link_on[OF Link True ci pi] pack_inv_def is_Link_def Link
          child_ids_snoc[OF b] parent_ids_snoc[OF b])
  qed
next
  case (Group ms)
  show ?thesis using inv
    by (simp add: store_entry_group[OF Group] pack_inv_def is_Group_def Group)
next
  case Other
  with e show ?thesis by simp
qed


lemma sl_find_Some:
  "sl_find ont v xs = Some a \<Longrightarrow> a \<in> set xs \<and> entry_eq ont a v"
proof -
  assume f: "sl_find ont v xs = Some a"
  then obtain rest where d: "dropWhile (\<lambda>a. entry_lt a v) xs = a # rest" and eq: "entry_eq ont a v"
    by (auto simp: sl_find_def split: list.splits if_splits)
  have "a \<in> set (dropWhile (\<lambda>a. entry_lt a v) xs)" by (simp add: d)
  then have "a \<in> set xs" by (rule set_dropWhileD)
  with eq show ?thesis by simp
qed

lemma list_find_Some:
  "list_find ont v xs = Some a \<Longrightarrow> a \<in> set xs \<and> entry_eq ont a v"
  by (auto simp: list_find_def find_Some_iff)

lemma add_or_get_entry_cases:
  assumes "body e \<noteq> Other"
  shows "(\<exists>found. add_or_get_entry ont p e = Inr (found, p)
            \<and> entry_eq ont found e
            \<and> found \<in> set (case body e of Annotation s \<Rightarrow> annotations p
                            | Link parent child \<Rightarrow> links p | _ \<Rightarrow> groups p))
         \<or> add_or_get_entry ont p e = store_entry p e"
  using assms
  by (cases "body e")
     (auto simp: add_or_get_entry_def split: option.splits dest: sl_find_Some list_find_Some)

lemma link_index_loop_links:
  "list_all is_Link ls \<Longrightarrow> child_index ix = Some ci \<Longrightarrow> parent_index ix = Some pi \<Longrightarrow>
   link_index_loop ix ls =
     Inr (ix\<lparr>child_index := Some (\<lambda>t. ci t \<union> child_ids ls t),
             parent_index := Some (\<lambda>t. pi t \<union> parent_ids ls t)\<rparr>)"
proof (induction ls arbitrary: ix ci pi)
  case Nil
  then show ?case by (simp add: child_ids_def parent_ids_def)
next
  case (Cons l ls)
  from Cons.prems(1) obtain parent child where l: "body l = Link parent child"
    by (auto simp: is_Link_def split: body.splits)
  from Cons.prems(1) have ls: "list_all is_Link ls" by simp
  let ?ix = "ix\<lparr>child_index := Some (ci(child := insert (tid l) (ci child))),
                  parent_index := Some (pi(parent := insert (tid l) (pi parent)))\<rparr>"
  have c: "(\<lambda>t. (ci(child := insert (tid l) (ci child))) t \<union> child_ids ls t)
             = (\<lambda>t. ci t \<union> child_ids (l # ls) t)"
    using l by (auto simp: fun_eq_iff child_ids_def)
  have p: "(\<lambda>t. (pi(parent := insert (tid l) (pi parent))) t \<union> parent_ids ls t)
             = (\<lambda>t. pi t \<union> parent_ids (l # ls) t)"
    using l by (auto simp: fun_eq_iff parent_ids_def)
  have a: "child_index ?ix = Some (ci(child := insert (tid l) (ci child)))" by simp
  have b: "parent_index ?ix = Some (pi(parent := insert (tid l) (pi parent)))" by simp
  have step: "link_index_loop ix (l # ls) = link_index_loop ?ix ls"
    using l Cons.prems by simp
  have "link_index_loop ?ix ls =
          Inr (?ix\<lparr>child_index := Some (\<lambda>t. ci t \<union> child_ids (l # ls) t),
                   parent_index := Some (\<lambda>t. pi t \<union> parent_ids (l # ls) t)\<rparr>)"
    using Cons.IH[OF ls a b] unfolding c p .
  also have "?ix\<lparr>child_index := Some (\<lambda>t. ci t \<union> child_ids (l # ls) t),
                   parent_index := Some (\<lambda>t. pi t \<union> parent_ids (l # ls) t)\<rparr>
      = ix\<lparr>child_index := Some (\<lambda>t. ci t \<union> child_ids (l # ls) t),
                   parent_index := Some (\<lambda>t. pi t \<union> parent_ids (l # ls) t)\<rparr>"
    by simp
  finally show ?case by (simp only: step)
qed


lemma update_link_index_build:
  assumes "list_all is_Link (links p)" "\<not> link_index_switch (index p)"
  shows "update_link_index p lks =
     Inr (p\<lparr>index := (index p)\<lparr>link_index_switch := True,
                                child_index := Some (child_ids (links p)),
                                parent_index := Some (parent_ids (links p))\<rparr>\<rparr>)"
proof -
  let ?ix = "(index p)\<lparr>link_index_switch := True, child_index := Some (\<lambda>t. {}),
                       parent_index := Some (\<lambda>t. {})\<rparr>"
  have "link_index_loop ?ix (links p) =
      Inr (?ix\<lparr>child_index := Some (\<lambda>t. {} \<union> child_ids (links p) t),
               parent_index := Some (\<lambda>t. {} \<union> parent_ids (links p) t)\<rparr>)"
    by (rule link_index_loop_links[OF assms(1)]) simp_all
  then show ?thesis using assms(2) by (simp add: update_link_index_def)
qed

lemma link_index_inv:
  assumes "pack_inv p"
  shows "\<exists>p'. link_index p t as_parent =
            Inr ((if as_parent then parent_ids (links p) t else child_ids (links p) t), p')
          \<and> pack_inv p' \<and> links p' = links p \<and> link_index_switch (index p')"
proof (cases "link_index_switch (index p)")
  case True
  with assms show ?thesis by (auto simp: link_index_def pack_inv_def)
next
  case False
  from assms have l: "list_all is_Link (links p)" by (simp add: pack_inv_def)
  show ?thesis using assms False
    by (auto simp: link_index_def update_link_index_build[OF l False] pack_inv_def)
qed

lemma group_index_inv:
  assumes "pack_inv p"
  shows "\<exists>s p'. group_index p t = Inr (s, p') \<and> pack_inv p'"
proof (cases "group_index_switch (index p)")
  case True
  with assms show ?thesis by (simp add: group_index_def)
next
  case False
  from assms have g: "list_all is_Group (groups p)" by (simp add: pack_inv_def)
  from group_index_loop_frame[OF g, of "(index p)\<lparr>group_index_switch := True, group_index_store := (\<lambda>t. {})\<rparr>"]
  obtain gi where "group_index_loop ((index p)\<lparr>group_index_switch := True, group_index_store := (\<lambda>t. {})\<rparr>) (groups p)
     = Inr ((index p)\<lparr>group_index_switch := True, group_index_store := (\<lambda>t. {})\<rparr>\<lparr>group_index_store := gi\<rparr>)"
    by blast
  then show ?thesis using assms False
    by (simp add: group_index_def update_group_index_def pack_inv_def)
qed

lemma apply_op_inv:
  assumes "pack_inv p" "apply_op ont p opn = Inr p'"
  shows "pack_inv p'"
proof (cases opn)
  case (AddEntry e)
  with assms(2) have ne: "body e \<noteq> Other"
    by (auto simp: apply_op_def add_entry_def split: body.splits)
  then have "add_entry p e = store_entry p e"
    by (cases "body e") (simp_all add: add_entry_def)
  with store_entry_inv[OF assms(1) ne] assms(2) AddEntry show ?thesis
    by (auto simp: apply_op_def)
next
  case (AddOrGetEntry e)
  with assms(2) have ne: "body e \<noteq> Other"
    by (auto simp: apply_op_def add_or_get_entry_def split: body.splits)
  from add_or_get_entry_cases[OF ne, of ont p] store_entry_inv[OF assms(1) ne] assms AddOrGetEntry
  show ?thesis by (auto simp: apply_op_def)
next
  case (LookupLinks t b)
  with link_index_inv[OF assms(1), of t b] assms(2) show ?thesis
    by (auto simp: apply_op_def)
next
  case (LookupGroups t)
  with group_index_inv[OF assms(1), of t] assms(2) show ?thesis
    by (auto simp: apply_op_def)
qed

lemma run_ops_inv:
  "pack_inv p \<Longrightarrow> run_ops ont p ops = Inr p' \<Longrightarrow> pack_inv p'"
proof (induction ops arbitrary: p)
  case Nil
  then show ?case by simp
next
  case (Cons opn ops)
  from Cons.prems(2) obtain p1 where a: "apply_op ont p opn = Inr p1" and r: "run_ops ont p1 ops = Inr p'"
    by (auto split: sum.splits)
  from apply_op_inv[OF Cons.prems(1) a] have "pack_inv p1" .
  then show ?case using r by (rule Cons.IH)
qed

lemma pack_inv_init: "pack_inv DataPack_init"
  by (simp add: pack_inv_def DataPack_init_def DataIndex_init_def span_sorted_def)

lemma str_nat_0: "str_nat 0 = ''0''"
  by code_simp

lemma str_nat_1: "str_nat (Suc 0) = ''1''"
  by code_simp

lemma str_nat_2: "str_nat (Suc (Suc 0)) = ''2''"
  by code_simp

lemma is_Annotation_body: "is_Annotation a \<Longrightarrow> \<exists>s. body a = Annotation s"
  by (cases "body a") (simp_all add: is_Annotation_def)

lemma is_Link_body: "is_Link a \<Longrightarrow> \<exists>parent child. body a = Link parent child"
  by (cases "body a") (simp_all add: is_Link_def)

lemma is_Group_body: "is_Group a \<Longrightarrow> \<exists>ms. body a = Group ms"
  by (cases "body a") (simp_all add: is_Group_def)

lemmas eval_defs =
  apply_op_def add_entry_def add_or_get_entry_def store_entry_def
  new_annotation_def new_entry_def DataPack_init_def DataIndex_init_def example_ontology_def
  meta_of_def InternalMeta_init_def set_tid_def attach_def is_Link_def is_Group_def
  sl_find_def list_find_def entry_lt_def key_lt_def span_key_def Let_def
  str_nat_0 str_nat_1 str_nat_2

section \<open>The order of the annotations\<close>

text \<open>
  C7. After every sequence of inserts (by \<open>add_entry\<close> or \<open>add_or_get_entry\<close>, with
  lookups in between) on a new pack, the annotation container holds annotations only and
  yields them in non-decreasing order of \<open>span.begin\<close>, ties in non-decreasing order of
  \<open>span.end\<close>.
\<close>

theorem annotations_sorted:
  assumes "run_ops ont DataPack_init ops = Inr p"
  shows "sorted_wrt
           (\<lambda>a b. \<exists>sa sb. body a = Annotation sa \<and> body b = Annotation sb
                    \<and> (span_begin sa < span_begin sb
                        \<or> (span_begin sa = span_begin sb \<and> span_end sa \<le> span_end sb)))
           (annotations p)"
proof -
  from run_ops_inv[OF pack_inv_init assms] have inv: "pack_inv p" .
  then have srt: "sorted_wrt (\<lambda>a b. key_le (span_key a) (span_key b)) (annotations p)"
    and ann: "\<forall>a \<in> set (annotations p). is_Annotation a"
    by (simp_all add: pack_inv_def span_sorted_def list_all_iff)
  show ?thesis
  proof (rule sorted_wrt_mono_rel[OF _ srt])
    fix a b
    assume a: "a \<in> set (annotations p)" and b: "b \<in> set (annotations p)"
      and le: "key_le (span_key a) (span_key b)"
    from ann a obtain sa where sa: "body a = Annotation sa"
      using is_Annotation_body by blast
    from ann b obtain sb where sb: "body b = Annotation sb"
      using is_Annotation_body by blast
    from le sa sb show "\<exists>sa sb. body a = Annotation sa \<and> body b = Annotation sb
                    \<and> (span_begin sa < span_begin sb
                        \<or> (span_begin sa = span_begin sb \<and> span_end sa \<le> span_end sb))"
      by (simp add: key_le_def span_key_def)
  qed
qed

theorem annotations_sorted_witness:
  "\<exists>p. run_ops example_ontology DataPack_init
          [AddEntry (new_annotation ''Token'' ''reader'' 5 9),
           AddOrGetEntry (new_annotation ''Token'' ''reader'' 0 3),
           AddEntry (new_annotation ''Sentence'' ''reader'' 0 9),
           AddOrGetEntry (new_annotation ''Token'' ''reader'' 0 3),
           AddEntry (new_annotation ''Token'' ''reader'' 0 3)] = Inr p
      \<and> map span_key (annotations p) = [(0, 3), (0, 3), (0, 9), (5, 9)]
      \<and> sorted_wrt
           (\<lambda>a b. \<exists>sa sb. body a = Annotation sa \<and> body b = Annotation sb
                    \<and> (span_begin sa < span_begin sb
                        \<or> (span_begin sa = span_begin sb \<and> span_end sa \<le> span_end sb)))
           (annotations p)"
proof -
  let ?ops = "[AddEntry (new_annotation ''Token'' ''reader'' 5 9),
           AddOrGetEntry (new_annotation ''Token'' ''reader'' 0 3),
           AddEntry (new_annotation ''Sentence'' ''reader'' 0 9),
           AddOrGetEntry (new_annotation ''Token'' ''reader'' 0 3),
           AddEntry (new_annotation ''Token'' ''reader'' 0 3)]"
  have "\<exists>p. run_ops example_ontology DataPack_init ?ops = Inr p
      \<and> map span_key (annotations p) = [(0, 3), (0, 3), (0, 9), (5, 9)]"
    by (simp add: eval_defs)
  then obtain p where r: "run_ops example_ontology DataPack_init ?ops = Inr p"
    and k: "map span_key (annotations p) = [(0, 3), (0, 3), (0, 9), (5, 9)]"
    by (elim exE conjE)
  show ?thesis
    by (rule exI[of _ p]) (intro conjI r k annotations_sorted[OF r])
qed

section \<open>Lookup by identifier\<close>

text \<open>
  Right after an insert, the identifier of the stored entry leads to that entry.
\<close>

lemma store_entry_index:
  assumes "store_entry p e = Inr (e', p')"
  shows "e' = minted p e \<and> entry_index (index p') = (entry_index (index p))(tid e' \<mapsto> e')"
proof (cases "body e")
  case (Annotation s)
  with assms show ?thesis by (auto simp: store_entry_annotation[OF Annotation])
next
  case (Link parent child)
  show ?thesis
  proof (cases "link_index_switch (index p)")
    case False
    with assms show ?thesis by (auto simp: store_entry_link_off[OF Link False])
  next
    case True
    from assms True Link obtain ci pi where
      "child_index (index p) = Some ci" "parent_index (index p) = Some pi"
      by (auto simp: store_entry_def Let_def is_Link_def attach_def set_tid_def
          update_link_index_def split: option.splits sum.splits if_splits)
    with assms show ?thesis by (auto simp: store_entry_link_on[OF Link True])
  qed
next
  case (Group ms)
  with assms show ?thesis by (auto simp: store_entry_group[OF Group])
next
  case Other
  with assms show ?thesis
    by (auto simp: store_entry_def Let_def is_Link_def is_Group_def attach_def set_tid_def
        minted_def)
qed

lemma add_entry_then_lookup:
  assumes "add_entry p e = Inr (e', p')"
  shows "get_entry_by_id p' (tid e') = Inr e'"
proof -
  from assms have "store_entry p e = Inr (e', p')"
    by (cases "body e") (simp_all add: add_entry_def)
  from store_entry_index[OF this] show ?thesis
    by (simp add: get_entry_by_id_def)
qed


section \<open>The link index: built on first lookup or kept up to date\<close>

lemma with_links_built_id:
  "pack_inv p \<Longrightarrow> link_index_switch (index p) \<Longrightarrow> with_links_built p = p"
  by (simp add: pack_inv_def with_links_built_def)

lemma with_links_built_inv: "pack_inv p \<Longrightarrow> pack_inv (with_links_built p)"
  by (simp add: pack_inv_def with_links_built_def)

lemma group_index_loop_commute:
  "group_index_loop (ix\<lparr>link_index_switch := a, child_index := b, parent_index := c\<rparr>) gs =
     (case group_index_loop ix gs of
        Inl err \<Rightarrow> Inl err
      | Inr ix' \<Rightarrow> Inr (ix'\<lparr>link_index_switch := a, child_index := b, parent_index := c\<rparr>))"
proof (induction gs arbitrary: ix)
  case Nil
  show ?case by simp
next
  case (Cons g gs)
  show ?case
  proof (cases "body g")
    case (Group ms)
    have "group_index_loop (ix\<lparr>link_index_switch := a, child_index := b, parent_index := c\<rparr>) (g # gs)
        = group_index_loop ((ix\<lparr>group_index_store := group_members_loop (group_index_store ix) (tid g) ms\<rparr>)
              \<lparr>link_index_switch := a, child_index := b, parent_index := c\<rparr>) gs"
      using Group by (cases ix) simp
    also have "\<dots> = (case group_index_loop (ix\<lparr>group_index_store := group_members_loop (group_index_store ix) (tid g) ms\<rparr>) gs of
        Inl err \<Rightarrow> Inl err
      | Inr ix' \<Rightarrow> Inr (ix'\<lparr>link_index_switch := a, child_index := b, parent_index := c\<rparr>))"
      by (rule Cons.IH)
    finally show ?thesis using Group by simp
  qed simp_all
qed

lemma store_entry_switch:
  assumes "store_entry p e = Inr (e', p')"
  shows "link_index_switch (index p') = link_index_switch (index p)"
proof (cases "body e")
  case (Annotation s)
  with assms show ?thesis by (auto simp: store_entry_annotation[OF Annotation])
next
  case (Link parent child)
  show ?thesis
  proof (cases "link_index_switch (index p)")
    case False
    with assms show ?thesis by (auto simp: store_entry_link_off[OF Link False])
  next
    case True
    from assms True Link obtain ci pi where
      "child_index (index p) = Some ci" "parent_index (index p) = Some pi"
      by (auto simp: store_entry_def Let_def is_Link_def attach_def set_tid_def
          update_link_index_def split: option.splits sum.splits if_splits)
    with assms True show ?thesis by (auto simp: store_entry_link_on[OF Link True])
  qed
next
  case (Group ms)
  with assms show ?thesis by (auto simp: store_entry_group[OF Group] split: if_splits)
next
  case Other
  with assms show ?thesis
    by (auto simp: store_entry_def Let_def is_Link_def is_Group_def attach_def set_tid_def)
qed

lemma minted_built [simp]: "minted (with_links_built p) e = minted p e"
  by (simp add: minted_def with_links_built_def)


lemma ubi_built:
  "update_basic_index (ix\<lparr>link_index_switch := a, child_index := b, parent_index := c\<rparr>) [m]
   = (update_basic_index ix [m])\<lparr>link_index_switch := a, child_index := b, parent_index := c\<rparr>"
  by (rule DataIndex.equality) simp_all

lemma built_annotation:
  "with_links_built (p\<lparr>annotations := X, internal_metas := M, index := update_basic_index (index p) [m]\<rparr>)
   = (with_links_built p)\<lparr>annotations := X, internal_metas := M,
        index := update_basic_index (index (with_links_built p)) [m]\<rparr>"
  by (rule DataPack.equality) (simp_all add: with_links_built_def ubi_built del: update_basic_index.simps)


lemma ubi_group_built:
  "(update_basic_index (ix\<lparr>link_index_switch := a, child_index := b, parent_index := c\<rparr>) [m])
      \<lparr>group_index_store := G\<rparr>
   = ((update_basic_index ix [m])\<lparr>group_index_store := G\<rparr>)
       \<lparr>link_index_switch := a, child_index := b, parent_index := c\<rparr>"
  by (rule DataIndex.equality) simp_all

lemma built_group:
  "with_links_built (p\<lparr>groups := X, internal_metas := M, index := ix'\<rparr>)
   = p\<lparr>groups := X, internal_metas := M,
        index := ix'\<lparr>link_index_switch := True,
                       child_index := Some (child_ids (links p)),
                       parent_index := Some (parent_ids (links p))\<rparr>\<rparr>"
  by (rule DataPack.equality) (simp_all add: with_links_built_def)

lemma built_link:
  "with_links_built (p\<lparr>links := L, internal_metas := M, index := ix'\<rparr>)
   = p\<lparr>links := L, internal_metas := M,
        index := ix'\<lparr>link_index_switch := True,
                       child_index := Some (child_ids L),
                       parent_index := Some (parent_ids L)\<rparr>\<rparr>"
  by (rule DataPack.equality) (simp_all add: with_links_built_def)

lemma built_fields [simp]:
  "annotations (with_links_built p) = annotations p"
  "links (with_links_built p) = links p"
  "groups (with_links_built p) = groups p"
  "internal_metas (with_links_built p) = internal_metas p"
  "pack_text (with_links_built p) = pack_text p"
  "group_index_switch (index (with_links_built p)) = group_index_switch (index p)"
  "group_index_store (index (with_links_built p)) = group_index_store (index p)"
  "link_index_switch (index (with_links_built p))"
  "child_index (index (with_links_built p)) = Some (child_ids (links p))"
  "parent_index (index (with_links_built p)) = Some (parent_ids (links p))"
  by (simp_all add: with_links_built_def)

lemma built_over:
  "(with_links_built p)\<lparr>groups := L, internal_metas := M, index := ix'\<rparr>
      = p\<lparr>groups := L, internal_metas := M, index := ix'\<rparr>"
  "(with_links_built p)\<lparr>links := L, internal_metas := M, index := ix'\<rparr>
      = p\<lparr>links := L, internal_metas := M, index := ix'\<rparr>"
  by (rule DataPack.equality; simp add: with_links_built_def)+

lemma store_entry_built_eq:
  assumes off: "\<not> link_index_switch (index p)"
  shows "store_entry (with_links_built p) e =
     (case store_entry p e of
        Inl err \<Rightarrow> Inl err
      | Inr r \<Rightarrow> Inr (fst r, with_links_built (snd r)))"
proof (cases "body e")
  case (Annotation s)
  show ?thesis
    unfolding store_entry_annotation[OF Annotation]
    by (simp only: sum.case fst_conv snd_conv built_annotation minted_built built_fields)
next
  case (Link parent child)
  have b: "body (minted p e) = Link parent child" using Link by simp
  have on: "link_index_switch (index (with_links_built p))" by simp
  have ci: "child_index (index (with_links_built p)) = Some (child_ids (links p))"
    and pi: "parent_index (index (with_links_built p)) = Some (parent_ids (links p))"
    by simp_all
  have ix: "(update_basic_index (index (with_links_built p)) [minted p e])
               \<lparr>child_index := Some ((child_ids (links p))(child := insert (tid (minted p e)) (child_ids (links p) child))),
                parent_index := Some ((parent_ids (links p))(parent := insert (tid (minted p e)) (parent_ids (links p) parent)))\<rparr>
      = (update_basic_index (index p) [minted p e])
           \<lparr>link_index_switch := True,
             child_index := Some (child_ids (links p @ [minted p e])),
             parent_index := Some (parent_ids (links p @ [minted p e]))\<rparr>"
    unfolding child_ids_snoc[OF b] parent_ids_snoc[OF b]
    by (rule DataIndex.equality) (simp_all add: with_links_built_def)
  show ?thesis
    unfolding store_entry_link_on[OF Link on ci pi] store_entry_link_off[OF Link off]
    by (simp only: sum.case fst_conv snd_conv built_link minted_built built_fields ix built_over)
next
  case (Group ms)
  have ix: "(if group_index_switch (index p)
               then (update_basic_index (index (with_links_built p)) [minted p e])
                      \<lparr>group_index_store :=
                         group_members_loop (group_index_store (index p)) (tid (minted p e)) ms\<rparr>
               else update_basic_index (index (with_links_built p)) [minted p e])
       = (if group_index_switch (index p)
               then (update_basic_index (index p) [minted p e])
                      \<lparr>group_index_store :=
                         group_members_loop (group_index_store (index p)) (tid (minted p e)) ms\<rparr>
               else update_basic_index (index p) [minted p e])
          \<lparr>link_index_switch := True,
                       child_index := Some (child_ids (links p)),
                       parent_index := Some (parent_ids (links p))\<rparr>"
    by (rule DataIndex.equality) (simp_all add: with_links_built_def)
  show ?thesis
    unfolding store_entry_group[OF Group]
    by (simp only: sum.case fst_conv snd_conv built_group minted_built built_fields ix built_over)
next
  case Other
  have nl: "\<not> is_Link (attach (set_tid e t))" and ng: "\<not> is_Group (attach (set_tid e t))" for t
    using Other by (simp_all add: is_Link_def is_Group_def attach_def set_tid_def)
  have bo: "body (attach (set_tid e t)) = Other" for t
    using Other by (simp add: attach_def set_tid_def)
  have s1: "store_entry q e = Inr (minted q e,
      q\<lparr>groups := groups q @ [minted q e],
        internal_metas := AList.update (cls e)
                ((meta_of (internal_metas q) (cls e))
                   \<lparr>id_counter := id_counter (meta_of (internal_metas q) (cls e)) + 1\<rparr>)
                (internal_metas q),
        index := update_basic_index (index q) [minted q e]\<rparr>)" for q
    using nl ng bo by (simp add: store_entry_def Let_def minted_def)
  have ix: "update_basic_index (index (with_links_built p)) [minted p e]
       = (update_basic_index (index p) [minted p e])\<lparr>link_index_switch := True,
                       child_index := Some (child_ids (links p)),
                       parent_index := Some (parent_ids (links p))\<rparr>"
    by (rule DataIndex.equality) (simp_all add: with_links_built_def)
  show ?thesis
    unfolding s1
    by (simp only: sum.case fst_conv snd_conv built_group minted_built built_fields ix built_over)
qed


lemma add_entry_built_eq:
  assumes off: "\<not> link_index_switch (index p)"
  shows "add_entry (with_links_built p) e =
     (case add_entry p e of
        Inl err \<Rightarrow> Inl err
      | Inr r \<Rightarrow> Inr (fst r, with_links_built (snd r)))"
  by (cases "body e") (simp_all add: add_entry_def store_entry_built_eq[OF off])

lemma add_or_get_entry_built_eq:
  assumes off: "\<not> link_index_switch (index p)"
  shows "add_or_get_entry ont (with_links_built p) e =
     (case add_or_get_entry ont p e of
        Inl err \<Rightarrow> Inl err
      | Inr r \<Rightarrow> Inr (fst r, with_links_built (snd r)))"
  by (cases "body e")
     (simp_all add: add_or_get_entry_def store_entry_built_eq[OF off] split: option.splits)

lemma with_links_built_idem: "with_links_built (with_links_built p) = with_links_built p"
  by (rule DataPack.equality) (simp_all add: with_links_built_def)

lemma link_index_off:
  assumes "list_all is_Link (links p)" "\<not> link_index_switch (index p)"
  shows "link_index p t as_parent =
     Inr ((if as_parent then parent_ids (links p) t else child_ids (links p) t),
          with_links_built p)"
  using assms(2)
  by (simp add: link_index_def update_link_index_build[OF assms] with_links_built_def)

lemma link_index_built:
  "link_index (with_links_built p) t as_parent =
     Inr ((if as_parent then parent_ids (links p) t else child_ids (links p) t),
          with_links_built p)"
  by (simp add: link_index_def)

lemma group_index_built_eq:
  "group_index (with_links_built p) t =
     (case group_index p t of
        Inl err \<Rightarrow> Inl err
      | Inr r \<Rightarrow> Inr (fst r, with_links_built (snd r)))"
proof (cases "group_index_switch (index p)")
  case True
  then show ?thesis by (simp add: group_index_def)
next
  case False
  have ix: "(index (with_links_built p))\<lparr>group_index_switch := True, group_index_store := (\<lambda>t. {})\<rparr>
     = ((index p)\<lparr>group_index_switch := True, group_index_store := (\<lambda>t. {})\<rparr>)
         \<lparr>link_index_switch := True, child_index := Some (child_ids (links p)),
           parent_index := Some (parent_ids (links p))\<rparr>"
    by (rule DataIndex.equality) (simp_all add: with_links_built_def)
  have w: "(with_links_built p)\<lparr>index := ix'\<lparr>link_index_switch := True,
              child_index := Some (child_ids (links p)),
              parent_index := Some (parent_ids (links p))\<rparr>\<rparr>
       = with_links_built (p\<lparr>index := ix'\<rparr>)" for ix'
    by (rule DataPack.equality) (simp_all add: with_links_built_def)
  show ?thesis
    using False
    by (simp add: group_index_def update_group_index_def ix group_index_loop_commute w
        split: sum.splits)
qed

lemma apply_op_switch:
  assumes "pack_inv p" "link_index_switch (index p)" "apply_op ont p opn = Inr p'"
  shows "link_index_switch (index p')"
proof (cases opn)
  case (AddEntry e)
  with assms(3) obtain e' where "add_entry p e = Inr (e', p')"
    by (auto simp: apply_op_def split: sum.splits)
  then have "store_entry p e = Inr (e', p')"
    by (cases "body e") (simp_all add: add_entry_def)
  from store_entry_switch[OF this] assms(2) show ?thesis by simp
next
  case (AddOrGetEntry e)
  with assms(3) obtain e' where a: "add_or_get_entry ont p e = Inr (e', p')"
    by (auto simp: apply_op_def split: sum.splits)
  then have ne: "body e \<noteq> Other"
    by (auto simp: add_or_get_entry_def)
  from add_or_get_entry_cases[OF ne, of ont p] a store_entry_switch[of p e e' p'] assms(2)
  show ?thesis by auto
next
  case (LookupLinks t b)
  with link_index_inv[OF assms(1), of t b] assms(3) show ?thesis
    by (auto simp: apply_op_def)
next
  case (LookupGroups t)
  from assms(1) have g: "list_all is_Group (groups p)" by (simp add: pack_inv_def)
  from group_index_loop_frame[OF g, of "(index p)\<lparr>group_index_switch := True, group_index_store := (\<lambda>t. {})\<rparr>"]
  obtain gi where "group_index_loop ((index p)\<lparr>group_index_switch := True, group_index_store := (\<lambda>t. {})\<rparr>) (groups p)
     = Inr ((index p)\<lparr>group_index_switch := True, group_index_store := (\<lambda>t. {})\<rparr>\<lparr>group_index_store := gi\<rparr>)"
    by blast
  with LookupGroups assms(2,3) show ?thesis
    by (auto simp: apply_op_def group_index_def update_group_index_def split: if_splits)
qed

lemma apply_op_built:
  assumes inv: "pack_inv p" and ap: "apply_op ont p opn = Inr p'"
  shows "apply_op ont (with_links_built p) opn = Inr (with_links_built p')"
proof (cases "link_index_switch (index p)")
  case True
  from apply_op_inv[OF inv ap] have inv': "pack_inv p'" .
  from apply_op_switch[OF inv True ap] have "link_index_switch (index p')" .
  with inv' have "with_links_built p' = p'" by (rule with_links_built_id)
  moreover from inv True have "with_links_built p = p" by (rule with_links_built_id)
  ultimately show ?thesis using ap by simp
next
  case False
  show ?thesis
  proof (cases opn)
    case (AddEntry e)
    with ap show ?thesis
      by (auto simp: apply_op_def add_entry_built_eq[OF False] split: sum.splits)
  next
    case (AddOrGetEntry e)
    with ap show ?thesis
      by (auto simp: apply_op_def add_or_get_entry_built_eq[OF False] split: sum.splits)
  next
    case (LookupLinks t b)
    from inv have l: "list_all is_Link (links p)" by (simp add: pack_inv_def)
    from ap LookupLinks have p': "p' = with_links_built p"
      by (simp add: apply_op_def link_index_off[OF l False])
    show ?thesis
      unfolding LookupLinks p'
      by (simp add: apply_op_def link_index_built with_links_built_idem)
  next
    case (LookupGroups t)
    with ap show ?thesis
      by (auto simp: apply_op_def group_index_built_eq split: sum.splits)
  qed
qed

lemma run_ops_built:
  "pack_inv p \<Longrightarrow> run_ops ont p ops = Inr p' \<Longrightarrow>
   run_ops ont (with_links_built p) ops = Inr (with_links_built p')"
proof (induction ops arbitrary: p)
  case Nil
  then show ?case by simp
next
  case (Cons opn ops)
  from Cons.prems(2) obtain p1 where a: "apply_op ont p opn = Inr p1"
    and r: "run_ops ont p1 ops = Inr p'"
    by (auto split: sum.splits)
  from apply_op_inv[OF Cons.prems(1) a] have i1: "pack_inv p1" .
  from Cons.IH[OF i1 r] apply_op_built[OF Cons.prems(1) a] show ?case by simp
qed

text \<open>
  C2. Take a pack whose link index is not built. Run any sequence of inserts on it and
  then look a \<open>tid\<close> up in the link index: the lookup builds the index from the link
  container. Or build the index first (\<open>update_link_index\<close>), run the same sequence, each
  insert of a link updating the index, and look up. Both lookups succeed and return the
  same set for every \<open>tid\<close>, as parent and as child: the identifiers of the links that have
  \<open>tid\<close> as their parent (or child). The two packs end up equal as well.
\<close>

theorem lazy_eager_link_index:
  assumes inv: "pack_inv p" and off: "\<not> link_index_switch (index p)"
    and lazy: "run_ops ont p ops = Inr p_lazy"
  shows "\<exists>p_built p_eager q.
           update_link_index p (links p) = Inr p_built
         \<and> run_ops ont p_built ops = Inr p_eager
         \<and> link_index p_lazy t as_parent =
             Inr ((if as_parent then parent_ids (links p_lazy) t
                   else child_ids (links p_lazy) t), q)
         \<and> link_index p_eager t as_parent =
             Inr ((if as_parent then parent_ids (links p_lazy) t
                   else child_ids (links p_lazy) t), q)"
proof -
  from inv have l: "list_all is_Link (links p)" by (simp add: pack_inv_def)
  have b: "update_link_index p (links p) = Inr (with_links_built p)"
    by (simp add: update_link_index_build[OF l off] with_links_built_def)
  from run_ops_built[OF inv lazy]
  have e: "run_ops ont (with_links_built p) ops = Inr (with_links_built p_lazy)" .
  from run_ops_inv[OF inv lazy] have inv': "pack_inv p_lazy" .
  have lz: "link_index p_lazy t as_parent =
             Inr ((if as_parent then parent_ids (links p_lazy) t
                   else child_ids (links p_lazy) t), with_links_built p_lazy)"
  proof (cases "link_index_switch (index p_lazy)")
    case True
    with inv' have "with_links_built p_lazy = p_lazy" by (rule with_links_built_id)
    with link_index_built[of p_lazy t as_parent] show ?thesis by simp
  next
    case False
    from inv' have "list_all is_Link (links p_lazy)" by (simp add: pack_inv_def)
    from link_index_off[OF this False] show ?thesis .
  qed
  from b e lz link_index_built[of p_lazy t as_parent] show ?thesis by blast
qed


theorem lazy_eager_link_index_witness:
  "pack_inv DataPack_init \<and> \<not> link_index_switch (index DataPack_init)
   \<and> (\<exists>p_lazy p_built p_eager q.
         run_ops example_ontology DataPack_init
           [AddEntry (new_annotation ''Token'' ''reader'' 0 3),
            AddEntry (new_annotation ''Token'' ''reader'' 4 9),
            AddEntry (new_entry ''Dependency'' ''parser'' (Link ''0'' ''1'')),
            AddOrGetEntry (new_entry ''Dependency'' ''parser'' (Link ''0'' ''0''))] = Inr p_lazy
       \<and> update_link_index DataPack_init (links DataPack_init) = Inr p_built
       \<and> run_ops example_ontology p_built
           [AddEntry (new_annotation ''Token'' ''reader'' 0 3),
            AddEntry (new_annotation ''Token'' ''reader'' 4 9),
            AddEntry (new_entry ''Dependency'' ''parser'' (Link ''0'' ''1'')),
            AddOrGetEntry (new_entry ''Dependency'' ''parser'' (Link ''0'' ''0''))] = Inr p_eager
       \<and> link_index p_lazy ''0'' True = Inr (parent_ids (links p_lazy) ''0'', q)
       \<and> link_index p_eager ''0'' True = Inr (parent_ids (links p_lazy) ''0'', q)
       \<and> parent_ids (links p_lazy) ''0'' = {''0'', ''1''})"
proof -
  let ?ops = "[AddEntry (new_annotation ''Token'' ''reader'' 0 3),
            AddEntry (new_annotation ''Token'' ''reader'' 4 9),
            AddEntry (new_entry ''Dependency'' ''parser'' (Link ''0'' ''1'')),
            AddOrGetEntry (new_entry ''Dependency'' ''parser'' (Link ''0'' ''0''))]"
  have off: "\<not> link_index_switch (index DataPack_init)"
    by (simp add: DataPack_init_def DataIndex_init_def)
  have "\<exists>p. run_ops example_ontology DataPack_init ?ops = Inr p
      \<and> links p =
          [\<lparr>cls = ''Dependency'', tid = ''0'', component = ''parser'', attached = True,
             body = Link ''0'' ''1'', attrs = []\<rparr>,
           \<lparr>cls = ''Dependency'', tid = ''1'', component = ''parser'', attached = True,
             body = Link ''0'' ''0'', attrs = []\<rparr>]"
    by (simp add: eval_defs)
  then obtain p where r: "run_ops example_ontology DataPack_init ?ops = Inr p"
    and lk: "links p =
          [\<lparr>cls = ''Dependency'', tid = ''0'', component = ''parser'', attached = True,
             body = Link ''0'' ''1'', attrs = []\<rparr>,
           \<lparr>cls = ''Dependency'', tid = ''1'', component = ''parser'', attached = True,
             body = Link ''0'' ''0'', attrs = []\<rparr>]"
    by (elim exE conjE)
  have s: "parent_ids (links p) ''0'' = {''0'', ''1''}"
    unfolding lk parent_ids_def by (simp del: set_filter set_map)
  from lazy_eager_link_index[OF pack_inv_init off r, of "''0''" True]
  obtain p_built p_eager q where
    "update_link_index DataPack_init (links DataPack_init) = Inr p_built"
    "run_ops example_ontology p_built ?ops = Inr p_eager"
    "link_index p ''0'' True = Inr (parent_ids (links p) ''0'', q)"
    "link_index p_eager ''0'' True = Inr (parent_ids (links p) ''0'', q)"
    by (auto simp only: if_True)
  with pack_inv_init off r s show ?thesis by blast
qed

section \<open>Adding an entry unless an equal one is stored\<close>

lemma sl_find_Nil [simp]: "sl_find ont v [] = None"
  by (simp add: sl_find_def)




lemma key_lt_trans: "key_lt a b \<Longrightarrow> key_lt b c \<Longrightarrow> key_lt a c"
  by (auto simp: key_lt_def)

lemma key_le_lt_trans: "key_le a b \<Longrightarrow> key_lt b c \<Longrightarrow> key_lt a c"
  by (auto simp: key_lt_def key_le_def)


















section \<open>Request normalization\<close>

lemma check_fields_created_iff:
  "check_fields_created components flds fc =
     (if \<forall>(meta_c, meta_f) \<in> set fc.
            (case components of None \<Rightarrow> True | Some cs \<Rightarrow> meta_c \<in> set cs) \<longrightarrow>
              set flds \<subseteq> meta_f
      then Inr () else Inl KeyError)"
proof (induction fc)
  case Nil
  show ?case by simp
next
  case (Cons cf fc)
  obtain c f where cf: "cf = (c, f)" by (cases cf)
  show ?case
    unfolding cf
    by (cases "(case components of None \<Rightarrow> True | Some cs \<Rightarrow> c \<in> set cs) \<and> \<not> set flds \<subseteq> f")
       (simp_all add: Cons.IH)
qed

lemma check_metas_iff:
  "check_metas ont a_type components flds metas =
     (if \<forall>(meta_key, meta_val) \<in> set metas.
           issubclass ont meta_key a_type \<longrightarrow>
            (\<forall>(meta_c, meta_f) \<in> set (fields_created meta_val).
               (case components of None \<Rightarrow> True | Some cs \<Rightarrow> meta_c \<in> set cs) \<longrightarrow>
                 set flds \<subseteq> meta_f)
      then Inr () else Inl KeyError)"
proof (induction metas)
  case Nil
  show ?case by simp
next
  case (Cons km metas)
  obtain k m where km: "km = (k, m)" by (cases km)
  show ?case
    unfolding km
    by (cases "issubclass ont k a_type")
       (simp_all add: Cons.IH check_fields_created_iff)
qed

text \<open>
  C3, as amended. For a request of the documented types, request normalization succeeds
  exactly when every component that has a record for a registered kind below the requested
  kind, and that the component filter admits (every such component when there is no
  filter), has recorded all the requested fields; it then returns the filter, the unit and
  the fields with \<open>"tid"\<close> added. Otherwise it raises \<open>KeyError\<close>. A kind or a component
  without a record imposes no condition.
\<close>

theorem parse_request_args_succeeds_iff:
  assumes "well_typed a_args"
  shows "parse_request_args ont p a_type a_args =
     (if all_recorded ont p a_type (requested_components a_args) (requested_fields a_args)
      then Inr (requested_components a_args, requested_unit a_args,
                set_add ''tid'' (requested_fields a_args))
      else Inl KeyError)"
proof (cases a_args)
  case ArgNone
  then show ?thesis
    by (simp add: parse_request_args_def checked_request_def check_metas_iff all_recorded_def
        requested_components_def requested_unit_def requested_fields_def)
next
  case (ArgFields fs)
  then show ?thesis
    by (simp add: parse_request_args_def checked_request_def check_metas_iff all_recorded_def
        requested_components_def requested_unit_def requested_fields_def)
next
  case (ArgDict c u f)
  with assms have "c \<noteq> IllTyped" "u \<noteq> IllTyped" "f \<noteq> IllTyped"
    by (simp_all add: well_typed_def)
  with ArgDict show ?thesis
    by (cases f)
       (simp_all add: parse_request_args_def checked_request_def check_metas_iff all_recorded_def
        requested_components_def requested_unit_def requested_fields_def)
next
  case ArgOther
  with assms show ?thesis by (simp add: well_typed_def)
qed

lemma pack_tagged_metas:
  "internal_metas pack_tagged =
     [(''Token'', \<lparr>id_counter = 0, fields_created = [(''tagger'', {''pos_tag'', ''tid''})],
                   default_component = Some ''tagger''\<rparr>)]"
  by (simp add: pack_tagged_def record_fields_def DataPack_init_def meta_of_def
      InternalMeta_init_def Let_def insert_commute)

lemma pack_tagged_recognized_metas:
  "internal_metas pack_tagged_recognized =
     [(''Token'', \<lparr>id_counter = 0,
                   fields_created = [(''tagger'', {''pos_tag'', ''tid''}),
                                     (''recognizer'', {''ner'', ''tid''})],
                   default_component = Some ''tagger''\<rparr>)]"
  by (simp add: pack_tagged_recognized_def record_fields_def pack_tagged_metas meta_of_def
      Let_def insert_commute)

theorem parse_request_args_succeeds_iff_witness:
  "well_typed (ArgDict (Given [''tagger'']) Unset (Given [''pos_tag'']))
   \<and> parse_request_args example_ontology pack_tagged_recognized ''Token''
        (ArgDict (Given [''tagger'']) Unset (Given [''pos_tag'']))
      = Inr (Some [''tagger''], None, [''pos_tag'', ''tid''])
   \<and> parse_request_args example_ontology pack_tagged_recognized ''Token''
        (ArgDict (Given [''tagger'']) Unset (Given [''ner''])) = Inl KeyError"
proof -
  have w: "well_typed (ArgDict (Given [''tagger'']) Unset (Given fs))" for fs
    by (simp add: well_typed_def)
  from parse_request_args_succeeds_iff[OF w, of example_ontology pack_tagged_recognized "''Token''"]
  show ?thesis
    by (simp add: w all_recorded_def pack_tagged_recognized_metas example_ontology_def
        requested_components_def requested_unit_def requested_fields_def arg_value_def
        set_add_def)
qed

text \<open>
  C3 as the claim states it fails in both directions. In the pack where a tagger recorded
  \<open>pos_tag\<close> and a recognizer recorded \<open>ner\<close> for tokens, \<open>pos_tag\<close> was recorded by a
  component, and the unfiltered request for it raises \<open>KeyError\<close>, because the recognizer
  has not recorded it. In the pack where only the tagger recorded anything, the request
  for \<open>ner\<close> filtered to the recognizer succeeds, though no component ever recorded \<open>ner\<close>.
\<close>

theorem parse_request_args_counterexample:
  "each_recorded_by_some example_ontology pack_tagged_recognized ''Token'' None [''pos_tag'']
   \<and> parse_request_args example_ontology pack_tagged_recognized ''Token''
        (ArgFields [''pos_tag'']) = Inl KeyError
   \<and> \<not> each_recorded_by_some example_ontology pack_tagged ''Token''
          (Some [''recognizer'']) [''ner'']
   \<and> parse_request_args example_ontology pack_tagged ''Token''
        (ArgDict (Given [''recognizer'']) Unset (Given [''ner'']))
      = Inr (Some [''recognizer''], None, [''ner'', ''tid''])"
  by (simp add: each_recorded_by_some_def parse_request_args_def checked_request_def
      pack_tagged_recognized_metas pack_tagged_metas example_ontology_def arg_value_def
      set_add_def)

section \<open>Reading from a pack without annotations\<close>

lemma entries_range_empty:
  "annotations p = [] \<Longrightarrow> entries_range p None = Inl IndexError"
  by (simp add: entries_range_def)

lemma get_entries_empty:
  "annotations p = [] \<Longrightarrow> get_entries ont p entry_type None components = raise IndexError"
  by (simp add: get_entries_def entries_range_empty)

lemma generate_annotation_empty:
  assumes "annotations p = []"
    and "parse_request_args ont p a_type a_args = Inr (components, None, flds)"
  shows "generate_annotation_entry_data ont p a_type a_args data None = Inl IndexError"
  using assms
  by (simp add: generate_annotation_entry_data_def get_entries_empty raise_def)

lemma generate_link_empty:
  assumes "annotations p = []"
    and "parse_request_args ont p a_type a_args = Inr (components, None, flds)"
  shows "generate_link_entry_data ont p a_type a_args data None = Inl IndexError"
  using assms
  by (simp add: generate_link_entry_data_def get_def get_entries_empty raise_def)

lemma lower_document: "lower ''document'' = ''document''"
  by (simp add: lower_def lower_char_def)

lemma lower_sentence: "lower ''sentence'' = ''sentence''"
  by (simp add: lower_def lower_char_def)

text \<open>
  C10, as amended. On a pack whose annotation container is empty, \<open>get_entries\<close> and
  \<open>get\<close> with no range annotation yield nothing and raise \<open>IndexError\<close> when iterated,
  for every entry type and component filter, link and group types included. \<open>get_data\<close> in
  document context raises it where it reaches \<open>get_entries\<close>: when the first requested
  annotation kind, or with no annotation kind the first requested link kind, passes request
  normalization and names no unit. With no annotation and no link kind among the requests
  (group kinds only, for one) it yields the document record and raises nothing.
\<close>

theorem get_entries_empty_annotations:
  assumes "annotations p = []"
  shows "get_entries ont p entry_type None components = ([], Some IndexError)
    \<and> get ont p entry_type None components = ([], Some IndexError)
    \<and> (\<forall>a_type a_args rest cs flds.
          annotation_types ont requests = (a_type, a_args) # rest
        \<and> parse_request_args ont p a_type a_args = Inr (cs, None, flds)
        \<and> a_type \<noteq> ''context'' \<and> a_type \<noteq> ''offset'' \<longrightarrow>
          get_data ont p ''document'' requests offset = ([], Some IndexError))
    \<and> (\<forall>l_type l_args rest cs flds.
          annotation_types ont requests = []
        \<and> link_types ont requests = (l_type, l_args) # rest
        \<and> parse_request_args ont p l_type l_args = Inr (cs, None, flds)
        \<and> l_type \<noteq> ''context'' \<and> l_type \<noteq> ''offset'' \<longrightarrow>
          get_data ont p ''document'' requests offset = ([], Some IndexError))
    \<and> (annotation_types ont requests = [] \<and> link_types ont requests = [] \<longrightarrow>
          get_data ont p ''document'' requests offset =
            ([[(''context'', DValue (PStr (pack_text p))), (''offset'', DValue (PInt 0))]], None))"
proof (intro conjI allI impI)
  show "get_entries ont p entry_type None components = ([], Some IndexError)"
    using assms by (simp add: get_entries_empty raise_def)
  show "get ont p entry_type None components = ([], Some IndexError)"
    using assms by (simp add: get_def get_entries_empty raise_def)
next
  fix a_type a_args rest cs flds
  assume h: "annotation_types ont requests = (a_type, a_args) # rest
        \<and> parse_request_args ont p a_type a_args = Inr (cs, None, flds)
        \<and> a_type \<noteq> ''context'' \<and> a_type \<noteq> ''offset''"
  then show "get_data ont p ''document'' requests offset = ([], Some IndexError)"
    by (simp add: get_data_def lower_document sub_records_def
        generate_annotation_empty[OF assms] raise_def)
next
  fix l_type l_args rest cs flds
  assume h: "annotation_types ont requests = []
        \<and> link_types ont requests = (l_type, l_args) # rest
        \<and> parse_request_args ont p l_type l_args = Inr (cs, None, flds)
        \<and> l_type \<noteq> ''context'' \<and> l_type \<noteq> ''offset''"
  then show "get_data ont p ''document'' requests offset = ([], Some IndexError)"
    by (simp add: get_data_def lower_document sub_records_def
        generate_link_empty[OF assms] raise_def)
next
  assume "annotation_types ont requests = [] \<and> link_types ont requests = []"
  then show "get_data ont p ''document'' requests offset =
            ([[(''context'', DValue (PStr (pack_text p))), (''offset'', DValue (PInt 0))]], None)"
    by (simp add: get_data_def lower_document sub_records_def yield_def)
qed

text \<open>
  C10 as the claim states it fails for \<open>get_data\<close>: on the new pack, whose annotation
  container is empty, the non-empty request for a group kind in document context yields the
  document record, and no exception is raised.
\<close>

theorem get_data_group_request_counterexample:
  "annotations DataPack_init = []
   \<and> group_types example_ontology [(''Cluster'', ArgFields [])] = [(''Cluster'', ArgFields [])]
   \<and> get_data example_ontology DataPack_init ''document'' [(''Cluster'', ArgFields [])] 0
      = ([[(''context'', DValue (PStr [])), (''offset'', DValue (PInt 0))]], None)"
  by (simp add: get_data_def lower_document sub_records_def yield_def annotation_types_def
      link_types_def group_types_def example_ontology_def DataPack_init_def)

theorem get_entries_empty_annotations_witness:
  "annotations DataPack_init = []
   \<and> get_entries example_ontology DataPack_init ''Dependency'' None NoComponents
       = ([], Some IndexError)
   \<and> get example_ontology DataPack_init ''Cluster'' None (OneComponent ''parser'')
       = ([], Some IndexError)
   \<and> get_data example_ontology DataPack_init ''document'' [(''Token'', ArgFields [])] 0
       = ([], Some IndexError)
   \<and> get_data example_ontology DataPack_init ''document'' [(''Dependency'', ArgNone)] 0
       = ([], Some IndexError)"
proof -
  have e: "annotations DataPack_init = []" by (simp add: DataPack_init_def)
  have a: "annotation_types example_ontology [(''Token'', ArgFields [])] = [(''Token'', ArgFields [])]"
    "annotation_types example_ontology [(''Dependency'', ArgNone)] = []"
    "link_types example_ontology [(''Dependency'', ArgNone)] = [(''Dependency'', ArgNone)]"
    by (simp_all add: annotation_types_def link_types_def example_ontology_def)
  have p: "parse_request_args example_ontology DataPack_init ''Token'' (ArgFields []) = Inr (None, None, [''tid''])"
    "parse_request_args example_ontology DataPack_init ''Dependency'' ArgNone = Inr (None, None, [''tid''])"
    by (simp_all add: parse_request_args_def checked_request_def DataPack_init_def set_add_def)
  note t = get_entries_empty_annotations[OF e]
  from t[of example_ontology "''Dependency''" NoComponents]
  have 1: "get_entries example_ontology DataPack_init ''Dependency'' None NoComponents
       = ([], Some IndexError)" by blast
  from t[of example_ontology "''Cluster''" "OneComponent ''parser''"]
  have 2: "get example_ontology DataPack_init ''Cluster'' None (OneComponent ''parser'')
       = ([], Some IndexError)" by blast
  from t[of example_ontology _ _ "[(''Token'', ArgFields [])]" 0] a p
  have 3: "get_data example_ontology DataPack_init ''document'' [(''Token'', ArgFields [])] 0
       = ([], Some IndexError)" by simp
  from t[of example_ontology _ _ "[(''Dependency'', ArgNone)]" 0] a p
  have 4: "get_data example_ontology DataPack_init ''document'' [(''Dependency'', ArgNone)] 0
       = ([], Some IndexError)" by simp
  from e 1 2 3 4 show ?thesis by blast
qed

end
